theory Spec2Isabelle
  imports Main
begin

section \<open>JavaScript values as far as the accordion uses them\<close>

text \<open>
  The options object and the root's \<open>dataset\<close> are only ever used in boolean position
  (\<open>||\<close>, \<open>&&\<close>, \<open>!!\<close>, \<open>if\<close>), so a value is modelled by its kind and its truthiness.
\<close>

datatype jsval = JUndefined | JNull | JBool bool | JNum int | JNaN | JStr string | JObject

fun truthy :: "jsval \<Rightarrow> bool" where
  "truthy JUndefined = False"
| "truthy JNull = False"
| "truthy (JBool b) = b"
| "truthy (JNum n) = (n \<noteq> 0)"
| "truthy JNaN = False"
| "truthy (JStr s) = (s \<noteq> [])"
| "truthy JObject = True"

definition js_or :: "jsval \<Rightarrow> jsval \<Rightarrow> jsval" where
  \<comment> \<open>\<open>a || b\<close>\<close>
  "js_or a b = (if truthy a then a else b)"

definition js_and :: "jsval \<Rightarrow> jsval \<Rightarrow> jsval" where
  \<comment> \<open>\<open>a && b\<close>\<close>
  "js_and a b = (if truthy a then b else a)"

definition not_not :: "jsval \<Rightarrow> jsval" where
  \<comment> \<open>\<open>!!a\<close>\<close>
  "not_not a = JBool (truthy a)"

definition data_attr :: "string option \<Rightarrow> jsval" where
  \<comment> \<open>a property of a DOMStringMap: a string, or undefined when the attribute is absent\<close>
  "data_attr a = (case a of None \<Rightarrow> JUndefined | Some s \<Rightarrow> JStr s)"

definition nth_js :: "'a list \<Rightarrow> int \<Rightarrow> 'a option" where
  \<comment> \<open>\<open>xs[i]\<close>: undefined (None) outside the array\<close>
  "nth_js xs i = (if 0 \<le> i \<and> i < int (length xs) then Some (xs ! nat i) else None)"

section \<open>The DOM the accordion sees\<close>

text \<open>
  The triggers and panels the constructor collects are descendants of different children
  of the root, so no element is collected twice; the controller writes only the
  \<open>aria-expanded\<close> attribute of a trigger and the class list and \<open>style.height\<close> of a
  panel. Each element's state is therefore kept in its slot of \<open>_triggers\<close> or \<open>_panels\<close>.
  \<open>aria-disabled\<close> comes from the markup; the controller only reads it.
\<close>

datatype css_height = Cleared | Zero | Px nat
  \<comment> \<open>\<open>style.height\<close>: \<open>''\<close>, \<open>'0'\<close>, or a measured number followed by \<open>'px'\<close>\<close>

record trigger_el =
  ariaExpanded :: "string option"
  ariaDisabled :: "string option"

record panel_el =
  expandedClass :: bool
  styleHeight :: css_height

record child_el =
  groupClass :: bool
  queryTrigger :: "trigger_el option"
  queryPanel :: "panel_el option"

record dataset_el =
  data_allowToggle :: "string option"
  data_allowMultiple :: "string option"

record root_el =
  dataset :: dataset_el
  children :: "child_el list"

record options =
  opt_allowToggle :: jsval
  opt_allowMultiple :: jsval

text \<open>
  What the browser supplies: whether \<open>window.CustomEvent\<close> is a function, the height
  \<open>getBoundingClientRect\<close> reports for a panel, and the milliseconds
  \<open>getTransitionDuration\<close> computes from the panel's computed style (floating point
  arithmetic on strings of the stylesheet, which is not part of the repository).
\<close>

record env =
  customEvent :: bool
  boundingHeight :: "int \<Rightarrow> panel_el \<Rightarrow> nat"
  getTransitionDuration :: "int \<Rightarrow> panel_el \<Rightarrow> nat"

section \<open>Constants and the controller's state\<close>

datatype event_name = BEFORE_COLLAPSE | COLLAPSE | BEFORE_EXPAND | EXPAND

datatype anim = Collapsing | Expanding

text \<open>Every statement of the source with an effect outside the controller, in program order.\<close>

datatype effect =
    SetAriaExpanded int bool
  | Measure int
  | SetHeight int css_height
  | ForceReflow int
  | ReadDuration int
  | AddClass int
  | RemoveClass int
  | Dispatch event_name int
  | SetTimeout anim int nat
  | Resolve anim int

record config =
  allowToggle :: jsval
  allowMultiple :: jsval

record timer =
  t_anim :: anim
  t_index :: int
  t_delay :: nat

text \<open>The rest of \<open>togglePanel\<close> after its \<open>await\<close>, by branch.\<close>

datatype cont = AfterCollapse | AfterExpand int | AfterSwap int

record accordion =
  config :: config
  triggers :: "trigger_el list"
  panels :: "panel_el list"
  active :: "int option"
  isTransitioning :: "bool option"
  timers :: "timer list"
  awaiting :: "(cont \<times> nat) option"
  effects :: "effect list"

text \<open>
  \<open>active\<close> and \<open>isTransitioning\<close> are \<open>None\<close> while the property has never been
  assigned (\<open>undefined\<close>). \<open>timers\<close> are the callbacks registered with \<open>setTimeout\<close> that
  have not run; \<open>awaiting\<close> is the suspended \<open>togglePanel\<close> call with the number of
  promises it still waits for.
\<close>

section \<open>Configuration\<close>

definition getConfig :: "dataset_el \<Rightarrow> options \<Rightarrow> config" where
  "getConfig ds opts =
     (let aT = js_or (opt_allowToggle opts) (not_not (data_attr (data_allowToggle ds)));
          aM = js_and aT (js_or (opt_allowMultiple opts) (not_not (data_attr (data_allowMultiple ds))))
      in \<lparr>allowToggle = aT, allowMultiple = aM\<rparr>)"

section \<open>Construction\<close>

definition visit :: "nat \<Rightarrow> child_el \<Rightarrow> accordion \<Rightarrow> accordion" where
  \<comment> \<open>the callback of the \<open>forEach\<close> over \<open>root.children\<close>\<close>
  "visit i grp this =
     (if \<not> groupClass grp then this
      else case queryTrigger grp of
        None \<Rightarrow> this
      | Some trigger \<Rightarrow>
         (case queryPanel grp of
            None \<Rightarrow> this
          | Some panel \<Rightarrow>
             (let flagged = (ariaExpanded trigger = Some ''true'');
                  single = (\<not> truthy (allowMultiple (config this)));
                  isExpanded = (if single \<and> flagged \<and> active this \<noteq> Some (- 1) then False else flagged);
                  act = (if single \<and> flagged \<and> active this = Some (- 1) then Some (int i) else active this)
              in this\<lparr>triggers := triggers this @ [trigger],
                      panels := panels this @ [panel\<lparr>expandedClass := isExpanded\<rparr>],
                      active := act\<rparr>)))"

fun forEach_children :: "nat \<Rightarrow> child_el list \<Rightarrow> accordion \<Rightarrow> accordion" where
  "forEach_children i [] this = this"
| "forEach_children i (grp # rest) this = forEach_children (Suc i) rest (visit i grp this)"

definition constructor :: "root_el \<Rightarrow> options \<Rightarrow> accordion" where
  "constructor root opts =
     (let cfg = getConfig (dataset root) opts;
          this0 = \<lparr>config = cfg, triggers = [], panels = [],
                   active = (if \<not> truthy (allowMultiple cfg) then Some (- 1) else None),
                   isTransitioning = None, timers = [], awaiting = None, effects = []\<rparr>;
          this1 = forEach_children 0 (children root) this0
      in if length (triggers this1) = 0 then this1
         else
           (let this2 =
                  (if \<not> truthy (allowToggle cfg) \<and> active this1 = Some (- 1)
                   then this1\<lparr>active := Some 0,
                              triggers := (triggers this1)[0 := (triggers this1 ! 0)\<lparr>ariaExpanded := Some ''true''\<rparr>],
                              panels := (panels this1)[0 := (panels this1 ! 0)\<lparr>expandedClass := True\<rparr>]\<rparr>
                   else this1)
            in this2\<lparr>isTransitioning := Some False\<rparr>))"

section \<open>Collapse and expand\<close>

definition dispatchEvent :: "env \<Rightarrow> event_name \<Rightarrow> int \<Rightarrow> effect list" where
  "dispatchEvent e name i = (if customEvent e then [Dispatch name i] else [])"

datatype promise = Pending | Rejected

fun resume :: "cont \<Rightarrow> accordion \<Rightarrow> accordion" where
  "resume AfterCollapse this =
     (if \<not> truthy (allowMultiple (config this))
      then this\<lparr>active := Some (- 1), isTransitioning := Some False\<rparr>
      else this\<lparr>isTransitioning := Some False\<rparr>)"
| "resume (AfterExpand i) this =
     (if \<not> truthy (allowMultiple (config this))
      then this\<lparr>active := Some i, isTransitioning := Some False\<rparr>
      else this\<lparr>isTransitioning := Some False\<rparr>)"
| "resume (AfterSwap i) this = this\<lparr>active := Some i, isTransitioning := Some False\<rparr>"

definition resolve :: "accordion \<Rightarrow> accordion" where
  \<comment> \<open>\<open>resolve()\<close>: the suspended call continues once the last promise it awaits resolves\<close>
  "resolve this =
     (case awaiting this of
        None \<Rightarrow> this
      | Some (k, n) \<Rightarrow>
          if n \<le> 1 then resume k (this\<lparr>awaiting := None\<rparr>)
          else this\<lparr>awaiting := Some (k, n - 1)\<rparr>)"

definition collapsePanel :: "env \<Rightarrow> int \<Rightarrow> accordion \<Rightarrow> promise \<times> accordion" where
  "collapsePanel e i this =
     (case nth_js (triggers this) i of
        None \<Rightarrow> (Rejected, this)
      | Some trigger \<Rightarrow>
         (let this1 = this\<lparr>triggers := (triggers this)[nat i := trigger\<lparr>ariaExpanded := Some ''false''\<rparr>],
                          effects := effects this @ [SetAriaExpanded i False]\<rparr>
          in case nth_js (panels this1) i of
               None \<Rightarrow> (Rejected, this1)
             | Some panel \<Rightarrow>
                (let currentHeight = boundingHeight e i panel;
                     panel1 = panel\<lparr>styleHeight := Px currentHeight\<rparr>;
                     transitionDuration = getTransitionDuration e i panel1;
                     panel2 = panel1\<lparr>styleHeight := Zero\<rparr>
                 in (Pending,
                     this1\<lparr>panels := (panels this1)[nat i := panel2],
                           effects := effects this1
                             @ [Measure i, SetHeight i (Px currentHeight), ForceReflow i,
                                ReadDuration i, SetHeight i Zero]
                             @ dispatchEvent e BEFORE_COLLAPSE i
                             @ [SetTimeout Collapsing i transitionDuration],
                           timers := timers this1
                             @ [\<lparr>t_anim = Collapsing, t_index = i, t_delay = transitionDuration\<rparr>]\<rparr>))))"

definition collapseTimeout :: "env \<Rightarrow> int \<Rightarrow> accordion \<Rightarrow> accordion" where
  \<comment> \<open>the callback \<open>_collapsePanel\<close> hands to \<open>setTimeout\<close>\<close>
  "collapseTimeout e i this =
     (case nth_js (panels this) i of
        None \<Rightarrow> this
      | Some panel \<Rightarrow>
          resolve (this\<lparr>panels := (panels this)[nat i := panel\<lparr>styleHeight := Cleared, expandedClass := False\<rparr>],
                        effects := effects this @ [SetHeight i Cleared, RemoveClass i]
                          @ dispatchEvent e COLLAPSE i @ [Resolve Collapsing i]\<rparr>))"

definition expandPanel :: "env \<Rightarrow> int \<Rightarrow> accordion \<Rightarrow> promise \<times> accordion" where
  "expandPanel e i this =
     (case nth_js (triggers this) i of
        None \<Rightarrow> (Rejected, this)
      | Some trigger \<Rightarrow>
         (let this1 = this\<lparr>triggers := (triggers this)[nat i := trigger\<lparr>ariaExpanded := Some ''true''\<rparr>],
                          effects := effects this @ [SetAriaExpanded i True]\<rparr>
          in case nth_js (panels this1) i of
               None \<Rightarrow> (Rejected, this1)
             | Some panel \<Rightarrow>
                (let panel1 = panel\<lparr>expandedClass := True\<rparr>;
                     targetHeight = boundingHeight e i panel1;
                     panel2 = panel1\<lparr>styleHeight := Zero\<rparr>;
                     transitionDuration = getTransitionDuration e i panel2;
                     panel3 = panel2\<lparr>styleHeight := Px targetHeight\<rparr>
                 in (Pending,
                     this1\<lparr>panels := (panels this1)[nat i := panel3],
                           effects := effects this1
                             @ [AddClass i, Measure i, SetHeight i Zero, ForceReflow i,
                                ReadDuration i, SetHeight i (Px targetHeight)]
                             @ dispatchEvent e BEFORE_EXPAND i
                             @ [SetTimeout Expanding i transitionDuration],
                           timers := timers this1
                             @ [\<lparr>t_anim = Expanding, t_index = i, t_delay = transitionDuration\<rparr>]\<rparr>))))"

definition expandTimeout :: "env \<Rightarrow> int \<Rightarrow> accordion \<Rightarrow> accordion" where
  \<comment> \<open>the callback \<open>_expandPanel\<close> hands to \<open>setTimeout\<close>\<close>
  "expandTimeout e i this =
     (case nth_js (panels this) i of
        None \<Rightarrow> this
      | Some panel \<Rightarrow>
          resolve (this\<lparr>panels := (panels this)[nat i := panel\<lparr>styleHeight := Cleared\<rparr>],
                        effects := effects this @ [SetHeight i Cleared]
                          @ dispatchEvent e EXPAND i @ [Resolve Expanding i]\<rparr>))"

section \<open>togglePanel\<close>

definition await :: "cont \<Rightarrow> promise list \<Rightarrow> accordion \<Rightarrow> accordion" where
  \<comment> \<open>\<open>await p\<close> and \<open>await Promise.all(ps)\<close>: a rejected promise makes the call throw, and
      the statements after the \<open>await\<close> never run\<close>
  "await k ps this = (if Rejected \<in> set ps then this else this\<lparr>awaiting := Some (k, length ps)\<rparr>)"

text \<open>
  The part of \<open>togglePanel\<close> that runs in the caller's tick, up to its \<open>await\<close>. Reading an
  attribute of an undefined trigger throws before anything is written, so that branch
  leaves the controller as it is.
\<close>

definition togglePanel :: "env \<Rightarrow> int \<Rightarrow> accordion \<Rightarrow> accordion" where
  "togglePanel e i this =
     (if i < 0 \<or> i \<ge> int (length (panels this)) then this
      else if isTransitioning this = Some True then this
      else if \<not> truthy (allowToggle (config this)) \<and> active this = Some i then this
      else case nth_js (triggers this) i of
        None \<Rightarrow> this
      | Some trigger \<Rightarrow>
         (let isExpanded = (ariaExpanded trigger = Some ''true'');
              isDisabled = (ariaDisabled trigger = Some ''true'')
          in if isExpanded \<and> isDisabled then this
             else
              (let this1 = this\<lparr>isTransitioning := Some True\<rparr>
               in if truthy (allowToggle (config this1)) then
                    (if isExpanded
                     then (case collapsePanel e i this1 of (p, this2) \<Rightarrow> await AfterCollapse [p] this2)
                     else (case expandPanel e i this1 of (p, this2) \<Rightarrow> await (AfterExpand i) [p] this2))
                  else
                    (case (case active this1 of
                             None \<Rightarrow> (Rejected, this1)
                           | Some a \<Rightarrow> collapsePanel e a this1) of
                       (p1, this2) \<Rightarrow>
                         (case expandPanel e i this2 of
                            (p2, this3) \<Rightarrow> await (AfterSwap i) [p1, p2] this3)))))"

section \<open>The event loop\<close>

text \<open>
  A macrotask is either a call of \<open>togglePanel\<close> (a click on a trigger) or one of the
  registered timers running; the timers may run in any order. The continuation of a
  suspended call runs in the microtasks of the timer that resolves its last promise,
  before any other macrotask. Every event is dispatched while \<open>_isTransitioning\<close> is true,
  so a listener that calls \<open>togglePanel\<close> from inside a dispatch gets the early return.
\<close>

datatype action = Toggle int | Fire nat

fun step :: "env \<Rightarrow> action \<Rightarrow> accordion \<Rightarrow> accordion" where
  "step e (Toggle i) this = togglePanel e i this"
| "step e (Fire k) this =
     (if k < length (timers this) then
        (let t = timers this ! k;
             this1 = this\<lparr>timers := take k (timers this) @ drop (Suc k) (timers this)\<rparr>
         in case t_anim t of
              Collapsing \<Rightarrow> collapseTimeout e (t_index t) this1
            | Expanding \<Rightarrow> expandTimeout e (t_index t) this1)
      else this)"

fun run :: "env \<Rightarrow> action list \<Rightarrow> accordion \<Rightarrow> accordion" where
  "run e [] this = this"
| "run e (a # as) this = run e as (step e a this)"

fun dispatched :: "effect list \<Rightarrow> (event_name \<times> int) list" where
  "dispatched [] = []"
| "dispatched (Dispatch name i # es) = (name, i) # dispatched es"
| "dispatched (_ # es) = dispatched es"

section \<open>Notions the properties speak about\<close>

definition valid_pair :: "child_el \<Rightarrow> bool" where
  \<comment> \<open>a child that passes both early returns of the constructor's callback\<close>
  "valid_pair c = (groupClass c \<and> queryTrigger c \<noteq> None \<and> queryPanel c \<noteq> None)"

definition flagged :: "child_el \<Rightarrow> bool" where
  \<comment> \<open>the child's trigger carries \<open>aria-expanded="true"\<close> in the markup\<close>
  "flagged c = (case queryTrigger c of None \<Rightarrow> False | Some t \<Rightarrow> ariaExpanded t = Some ''true'')"

definition flaggedExpanded :: "accordion \<Rightarrow> int \<Rightarrow> bool" where
  \<comment> \<open>what \<open>togglePanel\<close> reads as \<open>isExpanded\<close>\<close>
  "flaggedExpanded this i =
     (case nth_js (triggers this) i of None \<Rightarrow> False | Some t \<Rightarrow> ariaExpanded t = Some ''true'')"

definition flaggedDisabled :: "accordion \<Rightarrow> int \<Rightarrow> bool" where
  \<comment> \<open>what \<open>togglePanel\<close> reads as \<open>isDisabled\<close>\<close>
  "flaggedDisabled this i =
     (case nth_js (triggers this) i of None \<Rightarrow> False | Some t \<Rightarrow> ariaDisabled t = Some ''true'')"

definition shown :: "accordion \<Rightarrow> int \<Rightarrow> bool" where
  \<comment> \<open>the panel carries the class \<open>accordion__panel_expanded\<close>\<close>
  "shown this i = (case nth_js (panels this) i of None \<Rightarrow> False | Some p \<Rightarrow> expandedClass p)"

definition accepted :: "int \<Rightarrow> accordion \<Rightarrow> bool" where
  \<comment> \<open>the call \<open>togglePanel(i)\<close> passes every early return\<close>
  "accepted i this =
     (0 \<le> i \<and> i < int (length (panels this)) \<and> i < int (length (triggers this))
      \<and> isTransitioning this \<noteq> Some True
      \<and> \<not> (\<not> truthy (allowToggle (config this)) \<and> active this = Some i)
      \<and> \<not> (flaggedExpanded this i \<and> flaggedDisabled this i))"

definition collapsePending :: "accordion \<Rightarrow> int \<Rightarrow> bool" where
  "collapsePending this k = (filter (\<lambda>t. t_anim t = Collapsing \<and> t_index t = k) (timers this) \<noteq> [])"

definition locked :: "accordion \<Rightarrow> int \<Rightarrow> bool" where
  \<comment> \<open>trigger \<open>k\<close> is flagged expanded and disabled, and no collapse of panel \<open>k\<close> is under way\<close>
  "locked this k = (flaggedExpanded this k \<and> flaggedDisabled this k \<and> \<not> collapsePending this k)"

definition consistent :: "accordion \<Rightarrow> bool" where
  \<comment> \<open>triggers and panels pair up, every registered timer belongs to a panel, a suspended
      call waits for exactly the registered timers, and the lock is held while a timer is
      registered\<close>
  "consistent this =
     (length (triggers this) = length (panels this)
      \<and> list_all (\<lambda>t. 0 \<le> t_index t \<and> t_index t < int (length (panels this))) (timers this)
      \<and> (case awaiting this of None \<Rightarrow> True | Some (k, n) \<Rightarrow> n = length (timers this) \<and> 0 < n)
      \<and> (timers this = [] \<or> isTransitioning this = Some True))"

fun precedes :: "'a \<Rightarrow> 'a \<Rightarrow> 'a list \<Rightarrow> bool" where
  \<comment> \<open>\<open>b\<close> occurs after the first occurrence of \<open>a\<close>\<close>
  "precedes a b [] = False"
| "precedes a b (x # xs) = (if x = a then b \<in> set xs else precedes a b xs)"

text \<open>The states the program can be in: the constructor's result, then any macrotasks.\<close>

inductive reachable :: "env \<Rightarrow> accordion \<Rightarrow> bool" for e :: env where
  constructed: "reachable e (constructor root opts)"
| stepped: "reachable e this \<Longrightarrow> reachable e (step e a this)"

section \<open>Concrete markup\<close>

definition browser :: env where
  "browser = \<lparr>customEvent = True, boundingHeight = (\<lambda>i p. 120), getTransitionDuration = (\<lambda>i p. 300)\<rparr>"

definition markup_group :: "bool \<Rightarrow> bool \<Rightarrow> child_el" where
  \<comment> \<open>a well-formed group; the arguments are \<open>aria-expanded\<close> and \<open>aria-disabled\<close>\<close>
  "markup_group ex dis =
     \<lparr>groupClass = True,
      queryTrigger = Some \<lparr>ariaExpanded = Some (if ex then ''true'' else ''false''),
                           ariaDisabled = (if dis then Some ''true'' else None)\<rparr>,
      queryPanel = Some \<lparr>expandedClass = ex, styleHeight = Cleared\<rparr>\<rparr>"

definition markup_other :: child_el where
  \<comment> \<open>a child of the root that is not a group\<close>
  "markup_other = \<lparr>groupClass = False, queryTrigger = None, queryPanel = None\<rparr>"

definition markup_no_panel :: child_el where
  \<comment> \<open>a group whose panel is missing\<close>
  "markup_no_panel =
     \<lparr>groupClass = True,
      queryTrigger = Some \<lparr>ariaExpanded = Some ''true'', ariaDisabled = None\<rparr>,
      queryPanel = None\<rparr>"

definition markup_root :: "child_el list \<Rightarrow> root_el" where
  "markup_root cs = \<lparr>dataset = \<lparr>data_allowToggle = None, data_allowMultiple = None\<rparr>, children = cs\<rparr>"

definition opts_of :: "bool \<Rightarrow> bool \<Rightarrow> options" where
  "opts_of t m = \<lparr>opt_allowToggle = JBool t, opt_allowMultiple = JBool m\<rparr>"

definition new_accordion :: "bool \<Rightarrow> bool \<Rightarrow> child_el list \<Rightarrow> accordion" where
  "new_accordion t m cs = constructor (markup_root cs) (opts_of t m)"

definition toggle_pair :: accordion where
  \<comment> \<open>\<open>{allowToggle: true}\<close>, two panels, the first expanded\<close>
  "toggle_pair = new_accordion True False [markup_group True False, markup_group False False]"

definition scenario_A :: accordion where
  \<comment> \<open>\<open>{allowToggle: true, allowMultiple: false}\<close>, three panels, panel 0 expanded\<close>
  "scenario_A =
     new_accordion True False [markup_group True False, markup_group False False, markup_group False False]"

definition scenario_B :: accordion where
  \<comment> \<open>\<open>{allowToggle: false}\<close>, three panels, panel 0 expanded\<close>
  "scenario_B =
     new_accordion False False [markup_group True False, markup_group False False, markup_group False False]"

definition disabled_first :: "bool \<Rightarrow> accordion" where
  \<comment> \<open>two panels, the first expanded and its trigger disabled\<close>
  "disabled_first t = new_accordion t False [markup_group True True, markup_group False False]"

definition both_flagged :: "bool \<Rightarrow> accordion" where
  \<comment> \<open>two panels, both triggers flagged expanded in the markup\<close>
  "both_flagged t = new_accordion t False [markup_group True False, markup_group True False]"

definition after_other :: accordion where
  \<comment> \<open>\<open>{allowToggle: false}\<close>; the root's first child is not a group, the second is an
      expanded pair\<close>
  "after_other = new_accordion False False [markup_other, markup_group True False]"

section \<open>Basic facts\<close>

lemma dispatched_append: "dispatched (xs @ ys) = dispatched xs @ dispatched ys"
  by (induction xs rule: dispatched.induct) simp_all

lemma dispatched_dispatchEvent:
  "dispatched (dispatchEvent e name i) = (if customEvent e then [(name, i)] else [])"
  by (simp add: dispatchEvent_def)

lemma nth_js_Some: "0 \<le> i \<Longrightarrow> i < int (length xs) \<Longrightarrow> nth_js xs i = Some (xs ! nat i)"
  by (simp add: nth_js_def)

lemma nth_js_None: "i < 0 \<or> int (length xs) \<le> i \<Longrightarrow> nth_js xs i = None"
  by (auto simp: nth_js_def)

lemma nth_js_SomeD: "nth_js xs i = Some x \<Longrightarrow> 0 \<le> i \<and> i < int (length xs) \<and> x = xs ! nat i"
  by (auto simp: nth_js_def split: if_splits)

subsection \<open>What each operation leaves alone\<close>

lemma resume_frame:
  "config (resume k this) = config this \<and> triggers (resume k this) = triggers this
   \<and> panels (resume k this) = panels this \<and> timers (resume k this) = timers this
   \<and> awaiting (resume k this) = awaiting this \<and> effects (resume k this) = effects this
   \<and> isTransitioning (resume k this) = Some False"
  by (cases k) simp_all

lemma resolve_frame:
  "config (resolve this) = config this \<and> triggers (resolve this) = triggers this
   \<and> panels (resolve this) = panels this \<and> timers (resolve this) = timers this
   \<and> effects (resolve this) = effects this"
  by (simp add: resolve_def resume_frame split: option.splits prod.splits)

lemma collapsePanel_frame:
  assumes "collapsePanel e i this = (p, this')"
  shows "config this' = config this" "isTransitioning this' = isTransitioning this"
    "active this' = active this" "awaiting this' = awaiting this"
    "length (triggers this') = length (triggers this)"
    "length (panels this') = length (panels this)"
  using assms by (auto simp: collapsePanel_def Let_def split: option.splits)

lemma expandPanel_frame:
  assumes "expandPanel e i this = (p, this')"
  shows "config this' = config this" "isTransitioning this' = isTransitioning this"
    "active this' = active this" "awaiting this' = awaiting this"
    "length (triggers this') = length (triggers this)"
    "length (panels this') = length (panels this)"
  using assms by (auto simp: expandPanel_def Let_def split: option.splits)

lemma collapsePanel_timers:
  assumes "collapsePanel e i this = (p, this')"
  shows "(p = Rejected \<and> timers this' = timers this \<and> (i < 0 \<or> int (length (triggers this)) \<le> i \<or> int (length (panels this)) \<le> i))
       \<or> (p = Pending \<and> 0 \<le> i \<and> i < int (length (triggers this)) \<and> i < int (length (panels this))
           \<and> (\<exists>d. timers this' = timers this @ [\<lparr>t_anim = Collapsing, t_index = i, t_delay = d\<rparr>]))"
  using assms by (auto simp: collapsePanel_def Let_def nth_js_def split: option.splits if_splits)

lemma expandPanel_timers:
  assumes "expandPanel e i this = (p, this')"
  shows "(p = Rejected \<and> timers this' = timers this \<and> (i < 0 \<or> int (length (triggers this)) \<le> i \<or> int (length (panels this)) \<le> i))
       \<or> (p = Pending \<and> 0 \<le> i \<and> i < int (length (triggers this)) \<and> i < int (length (panels this))
           \<and> (\<exists>d. timers this' = timers this @ [\<lparr>t_anim = Expanding, t_index = i, t_delay = d\<rparr>]))"
  using assms by (auto simp: expandPanel_def Let_def nth_js_def split: option.splits if_splits)

lemma togglePanel_rejected: "\<not> accepted i this \<Longrightarrow> togglePanel e i this = this"
  by (auto simp: togglePanel_def accepted_def flaggedExpanded_def flaggedDisabled_def nth_js_def Let_def
           split: option.splits)

lemma togglePanel_busy: "isTransitioning this = Some True \<Longrightarrow> togglePanel e i this = this"
  by (simp add: togglePanel_def)

lemma togglePanel_accepted:
  assumes "accepted i this"
  shows "togglePanel e i this =
     (let this1 = this\<lparr>isTransitioning := Some True\<rparr>
      in if truthy (allowToggle (config this)) then
           (if flaggedExpanded this i
            then await AfterCollapse [fst (collapsePanel e i this1)] (snd (collapsePanel e i this1))
            else await (AfterExpand i) [fst (expandPanel e i this1)] (snd (expandPanel e i this1)))
         else
           (let c = (case active this of None \<Rightarrow> (Rejected, this1) | Some a \<Rightarrow> collapsePanel e a this1);
                x = expandPanel e i (snd c)
            in await (AfterSwap i) [fst c, fst x] (snd x)))"
  using assms
  by (auto simp: togglePanel_def accepted_def flaggedExpanded_def flaggedDisabled_def nth_js_def Let_def
           split: option.splits prod.splits)

lemma config_togglePanel: "config (togglePanel e i this) = config this"
  unfolding togglePanel_def Let_def
  by (auto simp: await_def split: option.splits prod.splits
           dest!: collapsePanel_frame(1) expandPanel_frame(1))

lemma config_step: "config (step e a this) = config this"
  by (cases a) (simp_all add: config_togglePanel collapseTimeout_def expandTimeout_def Let_def resolve_frame
        split: option.splits anim.splits)

lemma config_run: "config (run e acts this) = config this"
  by (induction acts arbitrary: this) (simp_all add: config_step)

lemma visit_invalid: "\<not> valid_pair c \<Longrightarrow> visit i c this = this"
  by (auto simp: visit_def valid_pair_def split: option.splits)

lemma forEach_children_invalid:
  "\<forall>c \<in> set cs. \<not> valid_pair c \<Longrightarrow> forEach_children i cs this = this"
  by (induction cs arbitrary: i) (simp_all add: visit_invalid)

lemma config_visit: "config (visit i c this) = config this"
  by (simp add: visit_def Let_def split: option.splits)

lemma config_forEach_children: "config (forEach_children i cs this) = config this"
  by (induction cs arbitrary: i this) (simp_all add: config_visit)

lemma config_constructor: "config (constructor root opts) = getConfig (dataset root) opts"
  by (simp add: constructor_def Let_def config_forEach_children)

lemma inert_step: "panels this = [] \<Longrightarrow> timers this = [] \<Longrightarrow> step e a this = this"
  by (cases a) (simp_all add: togglePanel_rejected accepted_def)

lemma inert_run: "panels this = [] \<Longrightarrow> timers this = [] \<Longrightarrow> run e acts this = this"
  by (induction acts) (simp_all add: inert_step)

lemma constructor_empty:
  assumes "\<forall>c \<in> set (children root). \<not> valid_pair c"
  shows "constructor root opts =
     \<lparr>config = getConfig (dataset root) opts, triggers = [], panels = [],
      active = (if \<not> truthy (allowMultiple (getConfig (dataset root) opts)) then Some (- 1) else None),
      isTransitioning = None, timers = [], awaiting = None, effects = []\<rparr>"
  by (simp add: constructor_def Let_def forEach_children_invalid[OF assms])

section \<open>The configuration\<close>

text \<open>
  Claim C10. For every options object and every root dataset, the configuration that
  \<open>_getConfig\<close> produces has \<open>allowMultiple\<close> truthy only if \<open>allowToggle\<close> is truthy: when
  \<open>allowToggle\<close> resolves to a falsy value, so does \<open>allowMultiple\<close>, whatever the options
  or the dataset ask for. The constructor stores this configuration, and no call of
  \<open>togglePanel\<close> and no timer callback changes it.
\<close>
theorem getConfig_multiple_implies_toggle:
  "(truthy (allowMultiple (getConfig ds opts)) \<longrightarrow> truthy (allowToggle (getConfig ds opts)))
   \<and> (\<not> truthy (allowToggle (getConfig ds opts)) \<longrightarrow> \<not> truthy (allowMultiple (getConfig ds opts)))
   \<and> config (constructor root opts) = getConfig (dataset root) opts
   \<and> config (run e acts (constructor root opts)) = getConfig (dataset root) opts"
proof -
  have m: "truthy (allowMultiple (getConfig ds opts)) \<Longrightarrow> truthy (allowToggle (getConfig ds opts))"
    by (auto simp: getConfig_def Let_def js_and_def split: if_splits)
  show ?thesis
    using m by (auto simp: config_run config_constructor)
qed

theorem getConfig_multiple_implies_toggle_witness:
  "truthy (allowMultiple (getConfig \<lparr>data_allowToggle = Some ''yes'', data_allowMultiple = None\<rparr>
                                    \<lparr>opt_allowToggle = JUndefined, opt_allowMultiple = JBool True\<rparr>))
   \<and> truthy (allowToggle (getConfig \<lparr>data_allowToggle = Some ''yes'', data_allowMultiple = None\<rparr>
                                    \<lparr>opt_allowToggle = JUndefined, opt_allowMultiple = JBool True\<rparr>))
   \<and> \<not> truthy (allowToggle (getConfig \<lparr>data_allowToggle = Some [], data_allowMultiple = Some ''true''\<rparr>
                                    \<lparr>opt_allowToggle = JBool False, opt_allowMultiple = JBool True\<rparr>))
   \<and> \<not> truthy (allowMultiple (getConfig \<lparr>data_allowToggle = Some [], data_allowMultiple = Some ''true''\<rparr>
                                    \<lparr>opt_allowToggle = JBool False, opt_allowMultiple = JBool True\<rparr>))"
  using getConfig_multiple_implies_toggle
          [of "\<lparr>data_allowToggle = Some ''yes'', data_allowMultiple = None\<rparr>"
              "\<lparr>opt_allowToggle = JUndefined, opt_allowMultiple = JBool True\<rparr>"]
        getConfig_multiple_implies_toggle
          [of "\<lparr>data_allowToggle = Some [], data_allowMultiple = Some ''true''\<rparr>"
              "\<lparr>opt_allowToggle = JBool False, opt_allowMultiple = JBool True\<rparr>"]
  by (simp add: getConfig_def js_or_def js_and_def not_not_def data_attr_def Let_def)

section \<open>Rejected requests\<close>

text \<open>
  Claim C8. A call \<open>togglePanel(i)\<close> with \<open>i\<close> outside the range of the panels, or with
  \<open>allowToggle\<close> falsy and \<open>i\<close> the active index, returns the controller exactly as it
  was: no field of the controller, no attribute or class of any trigger or panel and no
  entry of the effect log (so no notification) changes. When no child of the root is a
  valid pair the group is empty, and every sequence of toggle calls and timer ticks
  leaves the controller as the constructor built it.
\<close>
theorem rejected_toggle_is_noop:
  "((i < 0 \<or> int (length (panels this)) \<le> i
      \<or> (\<not> truthy (allowToggle (config this)) \<and> active this = Some i))
     \<longrightarrow> togglePanel e i this = this)
   \<and> ((\<forall>c \<in> set (children root). \<not> valid_pair c)
     \<longrightarrow> panels (constructor root opts) = []
         \<and> run e acts (constructor root opts) = constructor root opts)"
proof (intro conjI impI)
  assume "i < 0 \<or> int (length (panels this)) \<le> i
      \<or> (\<not> truthy (allowToggle (config this)) \<and> active this = Some i)"
  then show "togglePanel e i this = this"
    by (auto simp: togglePanel_def)
next
  assume a: "\<forall>c \<in> set (children root). \<not> valid_pair c"
  show "panels (constructor root opts) = []"
    by (simp add: constructor_empty[OF a])
  show "run e acts (constructor root opts) = constructor root opts"
    by (rule inert_run) (simp_all add: constructor_empty[OF a])
qed

theorem rejected_toggle_is_noop_witness:
  "togglePanel browser 5 (new_accordion True False [markup_group True False, markup_group False False])
     = new_accordion True False [markup_group True False, markup_group False False]
   \<and> togglePanel browser (- 1) (new_accordion True False [markup_group True False, markup_group False False])
     = new_accordion True False [markup_group True False, markup_group False False]
   \<and> togglePanel browser 0 (new_accordion False False [markup_group True False, markup_group False False])
     = new_accordion False False [markup_group True False, markup_group False False]
   \<and> run browser [Toggle 0, Fire 0, Toggle 1] (new_accordion True False [markup_other, markup_no_panel])
     = new_accordion True False [markup_other, markup_no_panel]"
proof -
  let ?s = "new_accordion True False [markup_group True False, markup_group False False]"
  let ?t = "new_accordion False False [markup_group True False, markup_group False False]"
  have p: "length (panels ?s) = 2"
    by (simp add: new_accordion_def constructor_def markup_root_def markup_group_def visit_def Let_def)
  have q: "\<not> truthy (allowToggle (config ?t)) \<and> active ?t = Some 0"
    by (simp add: new_accordion_def constructor_def markup_root_def markup_group_def visit_def Let_def
          opts_of_def getConfig_def js_or_def js_and_def not_not_def data_attr_def)
  have r: "\<forall>c \<in> set (children (markup_root [markup_other, markup_no_panel])). \<not> valid_pair c"
    by (simp add: markup_root_def markup_other_def markup_no_panel_def valid_pair_def)
  note A = rejected_toggle_is_noop[THEN conjunct1, THEN mp]
  note B = rejected_toggle_is_noop[THEN conjunct2, THEN mp, THEN conjunct2]
  have 1: "togglePanel browser 5 ?s = ?s" by (rule A) (simp add: p)
  have 2: "togglePanel browser (- 1) ?s = ?s" by (rule A) simp
  have 3: "togglePanel browser 0 ?t = ?t" by (rule A) (simp add: q)
  have 4: "run browser [Toggle 0, Fire 0, Toggle 1] (constructor (markup_root [markup_other, markup_no_panel]) (opts_of True False))
     = constructor (markup_root [markup_other, markup_no_panel]) (opts_of True False)"
    by (rule B) (rule r)
  show ?thesis
    using 1 2 3 4 unfolding new_accordion_def by blast
qed

section \<open>The invariant of the event loop\<close>

lemma visit_shape:
  "length (triggers this) = length (panels this) \<Longrightarrow>
   length (triggers (visit i c this)) = length (panels (visit i c this))"
  "timers (visit i c this) = timers this" "awaiting (visit i c this) = awaiting this"
  "isTransitioning (visit i c this) = isTransitioning this" "effects (visit i c this) = effects this"
  by (simp_all add: visit_def Let_def split: option.splits)

lemma forEach_children_shape:
  "length (triggers this) = length (panels this) \<Longrightarrow>
   length (triggers (forEach_children i cs this)) = length (panels (forEach_children i cs this))"
  "timers (forEach_children i cs this) = timers this"
  "awaiting (forEach_children i cs this) = awaiting this"
  "isTransitioning (forEach_children i cs this) = isTransitioning this"
  "effects (forEach_children i cs this) = effects this"
  by (induction cs arbitrary: i this) (simp_all add: visit_shape)

lemma constructor_shape:
  "length (triggers (constructor root opts)) = length (panels (constructor root opts))"
  "timers (constructor root opts) = []" "awaiting (constructor root opts) = None"
  "effects (constructor root opts) = []"
  "isTransitioning (constructor root opts) \<noteq> Some True"
proof -
  define this0 where "this0 =
     \<lparr>config = getConfig (dataset root) opts, triggers = [], panels = [],
      active = (if \<not> truthy (allowMultiple (getConfig (dataset root) opts)) then Some (- 1) else None),
      isTransitioning = None, timers = [], awaiting = None, effects = []\<rparr>"
  define this1 where "this1 = forEach_children 0 (children root) this0"
  have l: "length (triggers this1) = length (panels this1)"
    unfolding this1_def by (rule forEach_children_shape) (simp add: this0_def)
  have r: "timers this1 = []" "awaiting this1 = None" "effects this1 = []" "isTransitioning this1 = None"
    unfolding this1_def by (simp_all add: forEach_children_shape this0_def)
  have c: "constructor root opts =
     (if length (triggers this1) = 0 then this1
      else (if \<not> truthy (allowToggle (getConfig (dataset root) opts)) \<and> active this1 = Some (- 1)
            then this1\<lparr>active := Some 0,
                       triggers := (triggers this1)[0 := (triggers this1 ! 0)\<lparr>ariaExpanded := Some ''true''\<rparr>],
                       panels := (panels this1)[0 := (panels this1 ! 0)\<lparr>expandedClass := True\<rparr>]\<rparr>
            else this1)\<lparr>isTransitioning := Some False\<rparr>)"
    by (simp add: constructor_def Let_def this1_def this0_def)
  show "length (triggers (constructor root opts)) = length (panels (constructor root opts))"
    "timers (constructor root opts) = []" "awaiting (constructor root opts) = None"
    "effects (constructor root opts) = []"
    "isTransitioning (constructor root opts) \<noteq> Some True"
    unfolding c using l r by simp_all
qed

lemma consistent_constructor: "consistent (constructor root opts)"
  by (simp add: consistent_def constructor_shape)

lemma consistent_idle:
  assumes "consistent this" "isTransitioning this \<noteq> Some True"
  shows "timers this = []" "awaiting this = None"
  using assms by (auto simp: consistent_def split: option.splits)

lemma collapsePanel_sync:
  assumes "collapsePanel e i this = (p, this')"
    and "consistent this" "awaiting this = None" "isTransitioning this = Some True"
  shows "consistent this' \<and> awaiting this' = None \<and> isTransitioning this' = Some True
         \<and> length (timers this') = length (timers this) + (if p = Pending then 1 else 0)"
  using collapsePanel_timers[OF assms(1)] collapsePanel_frame[OF assms(1)] assms(2-)
  by (auto simp: consistent_def)

lemma expandPanel_sync:
  assumes "expandPanel e i this = (p, this')"
    and "consistent this" "awaiting this = None" "isTransitioning this = Some True"
  shows "consistent this' \<and> awaiting this' = None \<and> isTransitioning this' = Some True
         \<and> length (timers this') = length (timers this) + (if p = Pending then 1 else 0)"
  using expandPanel_timers[OF assms(1)] expandPanel_frame[OF assms(1)] assms(2-)
  by (auto simp: consistent_def)

lemma await_sync:
  assumes "consistent this" "awaiting this = None" "isTransitioning this = Some True"
    and "length (timers this) = length (filter (\<lambda>p. p = Pending) ps)" "ps \<noteq> []"
  shows "consistent (await k ps this)"
proof (cases "Rejected \<in> set ps")
  case True
  then show ?thesis using assms by (simp add: await_def)
next
  case False
  then have "filter (\<lambda>p. p = Pending) ps = ps"
    by (induction ps) (auto intro: promise.exhaust)
  then show ?thesis using assms False by (auto simp: await_def consistent_def)
qed

lemma consistent_togglePanel:
  assumes c: "consistent this"
  shows "consistent (togglePanel e i this)"
proof (cases "accepted i this")
  case False
  then show ?thesis using c by (simp add: togglePanel_rejected)
next
  case True
  then have nt: "isTransitioning this \<noteq> Some True" by (simp add: accepted_def)
  define this1 where "this1 = this\<lparr>isTransitioning := Some True\<rparr>"
  have i1: "timers this1 = []" "awaiting this1 = None" "isTransitioning this1 = Some True"
    using consistent_idle[OF c nt] by (simp_all add: this1_def)
  have c1: "consistent this1"
    using c i1 by (simp add: consistent_def this1_def)
  show ?thesis
  proof (cases "truthy (allowToggle (config this))")
    case toggle: True
    show ?thesis
    proof (cases "flaggedExpanded this i")
      case True
      obtain p this2 where r: "collapsePanel e i this1 = (p, this2)" by (cases "collapsePanel e i this1")
      from collapsePanel_sync[OF r c1 i1(2,3)] i1(1)
      have "consistent (await AfterCollapse [p] this2)"
        by (intro await_sync) auto
      then show ?thesis
        using toggle True r by (simp add: togglePanel_accepted[OF \<open>accepted i this\<close>] this1_def)
    next
      case False
      obtain p this2 where r: "expandPanel e i this1 = (p, this2)" by (cases "expandPanel e i this1")
      from expandPanel_sync[OF r c1 i1(2,3)] i1(1)
      have "consistent (await (AfterExpand i) [p] this2)"
        by (intro await_sync) auto
      then show ?thesis
        using toggle False r by (simp add: togglePanel_accepted[OF \<open>accepted i this\<close>] this1_def)
    qed
  next
    case swap: False
    obtain p1 this2 where r1:
      "(case active this of None \<Rightarrow> (Rejected, this1) | Some a \<Rightarrow> collapsePanel e a this1) = (p1, this2)"
      by (cases "case active this of None \<Rightarrow> (Rejected, this1) | Some a \<Rightarrow> collapsePanel e a this1")
    have s2: "consistent this2 \<and> awaiting this2 = None \<and> isTransitioning this2 = Some True
         \<and> length (timers this2) = (if p1 = Pending then 1 else 0)"
    proof (cases "active this")
      case None
      then show ?thesis using r1 c1 i1 by auto
    next
      case (Some a)
      then have "collapsePanel e a this1 = (p1, this2)" using r1 by simp
      from collapsePanel_sync[OF this c1 i1(2,3)] i1(1) show ?thesis by simp
    qed
    obtain p2 this3 where r2: "expandPanel e i this2 = (p2, this3)" by (cases "expandPanel e i this2")
    from s2 have "consistent this2" "awaiting this2 = None" "isTransitioning this2 = Some True" by simp_all
    from expandPanel_sync[OF r2 this] s2
    have "consistent (await (AfterSwap i) [p1, p2] this3)"
      by (intro await_sync) auto
    then show ?thesis
      using swap r1 r2 unfolding this1_def
      by (simp add: togglePanel_accepted[OF \<open>accepted i this\<close>] Let_def)
  qed
qed

lemma consistent_resolve:
  assumes "length (triggers this) = length (panels this)"
    and "list_all (\<lambda>t. 0 \<le> t_index t \<and> t_index t < int (length (panels this))) (timers this)"
    and "case awaiting this of None \<Rightarrow> True | Some (k, n) \<Rightarrow> n = Suc (length (timers this))"
    and "isTransitioning this = Some True"
  shows "consistent (resolve this)"
  using assms
  by (cases "awaiting this")
     (auto simp: resolve_def consistent_def resume_frame split: prod.splits)

lemma consistent_fire:
  assumes c: "consistent this" and k: "k < length (timers this)"
  shows "consistent (step e (Fire k) this)"
proof -
  define t where "t = timers this ! k"
  define this1 where "this1 = this\<lparr>timers := take k (timers this) @ drop (Suc k) (timers this)\<rparr>"
  have tin: "t \<in> set (timers this)" using k by (simp add: t_def)
  with c have r: "0 \<le> t_index t" "t_index t < int (length (panels this))"
    by (auto simp: consistent_def list_all_iff)
  then obtain panel where p: "nth_js (panels this1) (t_index t) = Some panel"
    by (simp add: nth_js_def this1_def)
  have len: "length (timers this1) + 1 = length (timers this)"
    using k by (simp add: this1_def)
  have tr: "isTransitioning this = Some True" using c k by (auto simp: consistent_def)
  have la: "list_all (\<lambda>t. 0 \<le> t_index t \<and> t_index t < int (length (panels this))) (timers this1)"
    using c by (auto simp: consistent_def list_all_iff this1_def dest: in_set_takeD in_set_dropD)
  have aw: "case awaiting this of None \<Rightarrow> True | Some (k, n) \<Rightarrow> n = Suc (length (timers this1))"
    using c len by (auto simp: consistent_def split: option.splits)
  have lt: "length (triggers this) = length (panels this)" using c by (simp add: consistent_def)
  have "consistent (collapseTimeout e (t_index t) this1)"
    unfolding collapseTimeout_def p option.case
    by (rule consistent_resolve) (use la aw tr lt in \<open>simp_all add: this1_def split: option.splits prod.splits\<close>)
  moreover have "consistent (expandTimeout e (t_index t) this1)"
    unfolding expandTimeout_def p option.case
    by (rule consistent_resolve) (use la aw tr lt in \<open>simp_all add: this1_def split: option.splits prod.splits\<close>)
  ultimately show ?thesis
    using k by (simp add: Let_def t_def[symmetric] this1_def[symmetric] split: anim.splits)
qed

lemma consistent_step: "consistent this \<Longrightarrow> consistent (step e a this)"
proof (cases a)
  case (Toggle i)
  assume "consistent this"
  then show ?thesis using Toggle by (simp add: consistent_togglePanel)
next
  case (Fire k)
  assume c: "consistent this"
  show ?thesis
  proof (cases "k < length (timers this)")
    case True
    then show ?thesis using consistent_fire[OF c True] Fire by simp
  next
    case False
    then show ?thesis using c Fire by simp
  qed
qed

lemma reachable_consistent: "reachable e this \<Longrightarrow> consistent this"
  by (induction rule: reachable.induct) (simp_all add: consistent_constructor consistent_step)

lemma await_frame:
  "isTransitioning (await k ps this) = isTransitioning this" "timers (await k ps this) = timers this"
  "triggers (await k ps this) = triggers this" "panels (await k ps this) = panels this"
  "active (await k ps this) = active this" "effects (await k ps this) = effects this"
  by (simp_all add: await_def)

lemma togglePanel_locks:
  assumes "accepted a this"
  shows "isTransitioning (togglePanel e a this) = Some True"
proof -
  have c: "\<And>j s. isTransitioning (snd (collapsePanel e j s)) = isTransitioning s"
    by (metis collapsePanel_frame(2) prod.collapse)
  have x: "\<And>j s. isTransitioning (snd (expandPanel e j s)) = isTransitioning s"
    by (metis expandPanel_frame(2) prod.collapse)
  show ?thesis
    by (simp add: togglePanel_accepted[OF assms] Let_def await_frame c x split: option.splits)
qed

lemma toggle_pair_eq:
  "toggle_pair =
     \<lparr>config = \<lparr>allowToggle = JBool True, allowMultiple = JBool False\<rparr>,
      triggers = [\<lparr>ariaExpanded = Some ''true'', ariaDisabled = None\<rparr>,
                  \<lparr>ariaExpanded = Some ''false'', ariaDisabled = None\<rparr>],
      panels = [\<lparr>expandedClass = True, styleHeight = Cleared\<rparr>,
                \<lparr>expandedClass = False, styleHeight = Cleared\<rparr>],
      active = Some 0, isTransitioning = Some False, timers = [], awaiting = None, effects = []\<rparr>"
  by (simp add: toggle_pair_def new_accordion_def constructor_def markup_root_def markup_group_def
        visit_def Let_def opts_of_def getConfig_def js_or_def js_and_def not_not_def data_attr_def)

lemma toggle_pair_toggle0:
  "togglePanel browser 0 toggle_pair =
     \<lparr>config = \<lparr>allowToggle = JBool True, allowMultiple = JBool False\<rparr>,
      triggers = [\<lparr>ariaExpanded = Some ''false'', ariaDisabled = None\<rparr>,
                  \<lparr>ariaExpanded = Some ''false'', ariaDisabled = None\<rparr>],
      panels = [\<lparr>expandedClass = True, styleHeight = Zero\<rparr>,
                \<lparr>expandedClass = False, styleHeight = Cleared\<rparr>],
      active = Some 0, isTransitioning = Some True,
      timers = [\<lparr>t_anim = Collapsing, t_index = 0, t_delay = 300\<rparr>],
      awaiting = Some (AfterCollapse, 1),
      effects = [SetAriaExpanded 0 False, Measure 0, SetHeight 0 (Px 120), ForceReflow 0,
                 ReadDuration 0, SetHeight 0 Zero, Dispatch BEFORE_COLLAPSE 0,
                 SetTimeout Collapsing 0 300]\<rparr>"
  by (simp add: toggle_pair_eq togglePanel_def collapsePanel_def nth_js_def Let_def await_def
        dispatchEvent_def browser_def)

section \<open>The transition lock\<close>

text \<open>
  Claim C3. An accepted call of \<open>togglePanel\<close> sets \<open>isTransitioning\<close>; in every reachable
  state with a timer still registered the flag is true, and while a call is suspended
  the flag stays true after each timer but the last and is cleared by the last one. A
  call made while the flag is true returns the controller unchanged, so a second toggle
  issued before the first resolves adds nothing: the run with it equals the run without.
\<close>
theorem transition_lock:
  "(accepted a this \<longrightarrow> isTransitioning (togglePanel e a this) = Some True)
   \<and> (isTransitioning this = Some True \<longrightarrow> togglePanel e b this = this)
   \<and> (reachable e this \<and> timers this \<noteq> [] \<longrightarrow> isTransitioning this = Some True)
   \<and> (reachable e this \<and> awaiting this \<noteq> None \<and> k < length (timers this)
        \<longrightarrow> isTransitioning (step e (Fire k) this) = Some (1 < length (timers this)))
   \<and> (accepted a this \<longrightarrow> run e (Toggle a # Toggle b # rest) this = run e (Toggle a # rest) this)"
proof (intro conjI impI)
  assume "accepted a this"
  then show "isTransitioning (togglePanel e a this) = Some True" by (rule togglePanel_locks)
next
  assume "isTransitioning this = Some True"
  then show "togglePanel e b this = this" by (rule togglePanel_busy)
next
  assume "reachable e this \<and> timers this \<noteq> []"
  then show "isTransitioning this = Some True"
    using reachable_consistent[of e this] by (auto simp: consistent_def)
next
  assume a: "reachable e this \<and> awaiting this \<noteq> None \<and> k < length (timers this)"
  then have c: "consistent this" using reachable_consistent by blast
  from a obtain c' n where aw: "awaiting this = Some (c', n)" by auto
  with c have n: "n = length (timers this)" "isTransitioning this = Some True"
    by (auto simp: consistent_def)
  from c a have "0 \<le> t_index (timers this ! k) \<and> t_index (timers this ! k) < int (length (panels this))"
    by (auto simp: consistent_def list_all_iff)
  then obtain panel where p: "nth_js (panels this) (t_index (timers this ! k)) = Some panel"
    by (simp add: nth_js_def)
  show "isTransitioning (step e (Fire k) this) = Some (1 < length (timers this))"
    using a aw n p
    by (auto simp: Let_def collapseTimeout_def expandTimeout_def resolve_def resume_frame
             split: anim.splits)
next
  assume "accepted a this"
  then have "isTransitioning (togglePanel e a this) = Some True" by (rule togglePanel_locks)
  then show "run e (Toggle a # Toggle b # rest) this = run e (Toggle a # rest) this"
    by (simp add: togglePanel_busy)
qed

theorem transition_lock_witness:
  "accepted 0 toggle_pair
   \<and> isTransitioning (togglePanel browser 0 toggle_pair) = Some True
   \<and> togglePanel browser 1 (togglePanel browser 0 toggle_pair) = togglePanel browser 0 toggle_pair
   \<and> timers (step browser (Toggle 0) toggle_pair) \<noteq> []
   \<and> isTransitioning (step browser (Fire 0) (step browser (Toggle 0) toggle_pair)) = Some False
   \<and> run browser [Toggle 0, Toggle 1, Fire 0] toggle_pair = run browser [Toggle 0, Fire 0] toggle_pair"
proof -
  let ?s = "step browser (Toggle 0) toggle_pair"
  have acc: "accepted 0 toggle_pair"
    by (simp add: toggle_pair_eq accepted_def flaggedExpanded_def flaggedDisabled_def nth_js_def)
  have re: "reachable browser ?s"
    unfolding toggle_pair_def new_accordion_def by (intro reachable.intros)
  have tm: "timers ?s \<noteq> []" "awaiting ?s \<noteq> None" "0 < length (timers ?s)" "length (timers ?s) = 1"
    by (simp_all add: toggle_pair_toggle0)
  note L = transition_lock[where e = browser and a = 0 and b = 1 and rest = "[Fire 0]"]
  have 1: "isTransitioning (togglePanel browser 0 toggle_pair) = Some True"
    using L[where this = toggle_pair, THEN conjunct1] acc by simp
  have 2: "togglePanel browser 1 (togglePanel browser 0 toggle_pair) = togglePanel browser 0 toggle_pair"
    using L[where this = "togglePanel browser 0 toggle_pair", THEN conjunct2, THEN conjunct1] 1 by simp
  have 3: "isTransitioning (step browser (Fire 0) ?s) = Some False"
    using L[where this = ?s and k = 0, THEN conjunct2, THEN conjunct2, THEN conjunct2, THEN conjunct1]
      re tm by simp
  have 4: "run browser [Toggle 0, Toggle 1, Fire 0] toggle_pair = run browser [Toggle 0, Fire 0] toggle_pair"
    using L[where this = toggle_pair, THEN conjunct2, THEN conjunct2, THEN conjunct2, THEN conjunct2] acc
    by simp
  show ?thesis using acc 1 2 3 4 tm(1) by blast
qed

section \<open>The exclusive swap\<close>

lemma swap_start:
  assumes sw: "\<not> truthy (allowToggle (config this))" and act: "active this = Some j"
    and j: "0 \<le> j" "j < int (length (panels this))"
    and len: "length (triggers this) = length (panels this)"
    and acc: "accepted i this" and idle: "timers this = []"
  shows "togglePanel e i this =
     this\<lparr>isTransitioning := Some True,
          triggers := (triggers this)[nat j := (triggers this ! nat j)\<lparr>ariaExpanded := Some ''false''\<rparr>,
                                      nat i := (triggers this ! nat i)\<lparr>ariaExpanded := Some ''true''\<rparr>],
          panels := (panels this)[nat j := (panels this ! nat j)\<lparr>styleHeight := Zero\<rparr>,
                                  nat i := (panels this ! nat i)
                                     \<lparr>expandedClass := True,
                                      styleHeight := Px (boundingHeight e i ((panels this ! nat i)\<lparr>expandedClass := True\<rparr>))\<rparr>],
          effects := effects this
            @ [SetAriaExpanded j False, Measure j,
               SetHeight j (Px (boundingHeight e j (panels this ! nat j))), ForceReflow j,
               ReadDuration j, SetHeight j Zero]
            @ dispatchEvent e BEFORE_COLLAPSE j
            @ [SetTimeout Collapsing j
                 (getTransitionDuration e j
                    ((panels this ! nat j)\<lparr>styleHeight := Px (boundingHeight e j (panels this ! nat j))\<rparr>))]
            @ [SetAriaExpanded i True, AddClass i, Measure i, SetHeight i Zero, ForceReflow i,
               ReadDuration i,
               SetHeight i (Px (boundingHeight e i ((panels this ! nat i)\<lparr>expandedClass := True\<rparr>)))]
            @ dispatchEvent e BEFORE_EXPAND i
            @ [SetTimeout Expanding i
                 (getTransitionDuration e i
                    ((panels this ! nat i)\<lparr>expandedClass := True, styleHeight := Zero\<rparr>))],
          timers :=
            [\<lparr>t_anim = Collapsing, t_index = j,
              t_delay = getTransitionDuration e j
                    ((panels this ! nat j)\<lparr>styleHeight := Px (boundingHeight e j (panels this ! nat j))\<rparr>)\<rparr>,
             \<lparr>t_anim = Expanding, t_index = i,
              t_delay = getTransitionDuration e i
                    ((panels this ! nat i)\<lparr>expandedClass := True, styleHeight := Zero\<rparr>)\<rparr>],
          awaiting := Some (AfterSwap i, 2)\<rparr>"
proof -
  have ij: "i \<noteq> j" "0 \<le> i" "i < int (length (panels this))"
    using acc sw act by (auto simp: accepted_def)
  then have n: "nat i \<noteq> nat j" "nat i < length (panels this)" "nat j < length (panels this)"
    using j by auto
  show ?thesis
    using sw act j len ij n idle
    by (simp add: togglePanel_accepted[OF acc] collapsePanel_def expandPanel_def nth_js_def Let_def
          await_def list_update_swap[of "nat i" "nat j"])
qed

lemma swap_facts:
  assumes sw: "\<not> truthy (allowToggle (config this))" and act: "active this = Some j"
    and j: "0 \<le> j" "j < int (length (panels this))"
    and len: "length (triggers this) = length (panels this)"
    and acc: "accepted i this" and idle: "timers this = []"
  shows "i \<noteq> j" "0 \<le> i" "i < int (length (panels this))"
    "nat i \<noteq> nat j" "nat i < length (panels this)" "nat j < length (panels this)"
    "nat i < length (triggers this)" "nat j < length (triggers this)"
proof -
  show ij: "i \<noteq> j" "0 \<le> i" "i < int (length (panels this))"
    using acc sw act by (auto simp: accepted_def)
  then show "nat i \<noteq> nat j" "nat i < length (panels this)" "nat j < length (panels this)"
    "nat i < length (triggers this)" "nat j < length (triggers this)"
    using j len by auto
qed

lemma swap_begin:
  assumes sw: "\<not> truthy (allowToggle (config this))" and act: "active this = Some j"
    and j: "0 \<le> j" "j < int (length (panels this))"
    and len: "length (triggers this) = length (panels this)"
    and acc: "accepted i this" and idle: "timers this = []"
  shows "map t_anim (timers (togglePanel e i this)) = [Collapsing, Expanding]"
    "map t_index (timers (togglePanel e i this)) = [j, i]"
    "awaiting (togglePanel e i this) = Some (AfterSwap i, 2)"
    "active (togglePanel e i this) = Some j"
    "isTransitioning (togglePanel e i this) = Some True"
    "dispatched (effects (togglePanel e i this)) = dispatched (effects this)
       @ (if customEvent e then [(BEFORE_COLLAPSE, j), (BEFORE_EXPAND, i)] else [])"
  by (simp_all add: swap_start[OF assms] act dispatched_append dispatched_dispatchEvent)

lemma swap_one_done:
  assumes sw: "\<not> truthy (allowToggle (config this))" and act: "active this = Some j"
    and j: "0 \<le> j" "j < int (length (panels this))"
    and len: "length (triggers this) = length (panels this)"
    and acc: "accepted i this" and idle: "timers this = []"
    and k: "k < 2"
  shows "active (run e [Toggle i, Fire k] this) = Some j"
    "isTransitioning (run e [Toggle i, Fire k] this) = Some True"
    "length (timers (run e [Toggle i, Fire k] this)) = 1"
proof -
  note f = swap_facts[OF assms(1-7)]
  from k have "k = 0 \<or> k = 1" by auto
  then show "active (run e [Toggle i, Fire k] this) = Some j"
    "isTransitioning (run e [Toggle i, Fire k] this) = Some True"
    "length (timers (run e [Toggle i, Fire k] this)) = 1"
    using f j act
    by (auto simp: swap_start[OF assms(1-7)] collapseTimeout_def expandTimeout_def nth_js_def
          resolve_def Let_def)
qed

lemma swap_collapse_first:
  assumes sw: "\<not> truthy (allowToggle (config this))" and act: "active this = Some j"
    and j: "0 \<le> j" "j < int (length (panels this))"
    and len: "length (triggers this) = length (panels this)"
    and acc: "accepted i this" and idle: "timers this = []"
  shows "active (run e [Toggle i, Fire 0, Fire 0] this) = Some i"
    "isTransitioning (run e [Toggle i, Fire 0, Fire 0] this) = Some False"
    "timers (run e [Toggle i, Fire 0, Fire 0] this) = []"
    "awaiting (run e [Toggle i, Fire 0, Fire 0] this) = None"
    "\<not> flaggedExpanded (run e [Toggle i, Fire 0, Fire 0] this) j"
    "flaggedExpanded (run e [Toggle i, Fire 0, Fire 0] this) i"
    "\<not> shown (run e [Toggle i, Fire 0, Fire 0] this) j"
    "shown (run e [Toggle i, Fire 0, Fire 0] this) i"
    "dispatched (effects (run e [Toggle i, Fire 0, Fire 0] this)) = dispatched (effects this)
       @ (if customEvent e
          then [(BEFORE_COLLAPSE, j), (BEFORE_EXPAND, i), (COLLAPSE, j), (EXPAND, i)] else [])"
  using swap_facts[OF assms] j
  by (simp_all add: swap_start[OF assms] collapseTimeout_def expandTimeout_def nth_js_def
        resolve_def Let_def flaggedExpanded_def shown_def dispatched_append dispatched_dispatchEvent)

lemma swap_expand_first:
  assumes sw: "\<not> truthy (allowToggle (config this))" and act: "active this = Some j"
    and j: "0 \<le> j" "j < int (length (panels this))"
    and len: "length (triggers this) = length (panels this)"
    and acc: "accepted i this" and idle: "timers this = []"
  shows "active (run e [Toggle i, Fire 1, Fire 0] this) = Some i"
    "isTransitioning (run e [Toggle i, Fire 1, Fire 0] this) = Some False"
    "timers (run e [Toggle i, Fire 1, Fire 0] this) = []"
    "awaiting (run e [Toggle i, Fire 1, Fire 0] this) = None"
    "\<not> flaggedExpanded (run e [Toggle i, Fire 1, Fire 0] this) j"
    "flaggedExpanded (run e [Toggle i, Fire 1, Fire 0] this) i"
    "\<not> shown (run e [Toggle i, Fire 1, Fire 0] this) j"
    "shown (run e [Toggle i, Fire 1, Fire 0] this) i"
    "dispatched (effects (run e [Toggle i, Fire 1, Fire 0] this)) = dispatched (effects this)
       @ (if customEvent e
          then [(BEFORE_COLLAPSE, j), (BEFORE_EXPAND, i), (EXPAND, i), (COLLAPSE, j)] else [])"
  using swap_facts[OF assms] j
  by (simp_all add: swap_start[OF assms] collapseTimeout_def expandTimeout_def nth_js_def
        resolve_def Let_def flaggedExpanded_def shown_def dispatched_append dispatched_dispatchEvent)

lemma scenario_B_eq:
  "scenario_B =
     \<lparr>config = \<lparr>allowToggle = JBool False, allowMultiple = JBool False\<rparr>,
      triggers = [\<lparr>ariaExpanded = Some ''true'', ariaDisabled = None\<rparr>,
                  \<lparr>ariaExpanded = Some ''false'', ariaDisabled = None\<rparr>,
                  \<lparr>ariaExpanded = Some ''false'', ariaDisabled = None\<rparr>],
      panels = [\<lparr>expandedClass = True, styleHeight = Cleared\<rparr>,
                \<lparr>expandedClass = False, styleHeight = Cleared\<rparr>,
                \<lparr>expandedClass = False, styleHeight = Cleared\<rparr>],
      active = Some 0, isTransitioning = Some False, timers = [], awaiting = None, effects = []\<rparr>"
  by (simp add: scenario_B_def new_accordion_def constructor_def markup_root_def markup_group_def
        visit_def Let_def opts_of_def getConfig_def js_or_def js_and_def not_not_def data_attr_def)

text \<open>
  The swap where the active index is a panel of the group. In a reachable state with
  \<open>allowToggle\<close> falsy and the active index \<open>j\<close> within the panels, an accepted \<open>togglePanel(i)\<close> (so \<open>i \<noteq> j\<close>) starts the collapse of \<open>j\<close> and the
  expansion of \<open>i\<close> in the same call: both timers are registered and both before-events
  are out before the call suspends. While only one of the two timers has run, whichever
  it is, the active index is still \<open>j\<close> and the lock is held; once both have run, in
  either order, the active index is \<open>i\<close>, the lock is released, panel \<open>j\<close> is collapsed and
  panel \<open>i\<close> expanded. \<open>togglePanel(j)\<close> returns the controller unchanged.
\<close>
theorem exclusive_swap:
  assumes "reachable e this" and "\<not> truthy (allowToggle (config this))"
    and "active this = Some j" and "0 \<le> j" and "j < int (length (panels this))"
    and "accepted i this"
  shows "i \<noteq> j
    \<and> map t_anim (timers (togglePanel e i this)) = [Collapsing, Expanding]
    \<and> map t_index (timers (togglePanel e i this)) = [j, i]
    \<and> dispatched (effects (togglePanel e i this)) = dispatched (effects this)
         @ (if customEvent e then [(BEFORE_COLLAPSE, j), (BEFORE_EXPAND, i)] else [])
    \<and> active (togglePanel e i this) = Some j
    \<and> isTransitioning (togglePanel e i this) = Some True
    \<and> (\<forall>k < 2. active (run e [Toggle i, Fire k] this) = Some j
                \<and> isTransitioning (run e [Toggle i, Fire k] this) = Some True)
    \<and> (\<forall>k < 2. active (run e [Toggle i, Fire k, Fire 0] this) = Some i
                \<and> isTransitioning (run e [Toggle i, Fire k, Fire 0] this) = Some False
                \<and> timers (run e [Toggle i, Fire k, Fire 0] this) = []
                \<and> \<not> flaggedExpanded (run e [Toggle i, Fire k, Fire 0] this) j
                \<and> \<not> shown (run e [Toggle i, Fire k, Fire 0] this) j
                \<and> flaggedExpanded (run e [Toggle i, Fire k, Fire 0] this) i
                \<and> shown (run e [Toggle i, Fire k, Fire 0] this) i)
    \<and> dispatched (effects (run e [Toggle i, Fire 0, Fire 0] this)) = dispatched (effects this)
         @ (if customEvent e
            then [(BEFORE_COLLAPSE, j), (BEFORE_EXPAND, i), (COLLAPSE, j), (EXPAND, i)] else [])
    \<and> dispatched (effects (run e [Toggle i, Fire 1, Fire 0] this)) = dispatched (effects this)
         @ (if customEvent e
            then [(BEFORE_COLLAPSE, j), (BEFORE_EXPAND, i), (EXPAND, i), (COLLAPSE, j)] else [])
    \<and> togglePanel e j this = this"
proof -
  have c: "consistent this" using assms(1) by (rule reachable_consistent)
  have nt: "isTransitioning this \<noteq> Some True" using assms(6) by (simp add: accepted_def)
  have len: "length (triggers this) = length (panels this)" using c by (simp add: consistent_def)
  have idle: "timers this = []" using consistent_idle(1)[OF c nt] .
  note H = assms(2-5) len assms(6) idle
  have two: "\<And>P. (\<forall>k<2::nat. P k) = (P 0 \<and> P 1)"
    by (auto simp: less_2_cases_iff)
  have noop: "togglePanel e j this = this"
    using assms(2,3) by (simp add: togglePanel_def)
  show ?thesis
    unfolding two
    using swap_facts(1)[OF H] swap_begin[OF H, of e] swap_one_done[OF H, of 0 e]
      swap_one_done[OF H, of 1 e] swap_collapse_first[OF H, of e] swap_expand_first[OF H, of e] noop
    by (intro conjI) simp_all
qed

theorem exclusive_swap_witness:
  "active (togglePanel browser 2 scenario_B) = Some 0
   \<and> active (run browser [Toggle 2, Fire 1] scenario_B) = Some 0
   \<and> active (run browser [Toggle 2, Fire 1, Fire 0] scenario_B) = Some 2
   \<and> isTransitioning (run browser [Toggle 2, Fire 1, Fire 0] scenario_B) = Some False
   \<and> \<not> shown (run browser [Toggle 2, Fire 1, Fire 0] scenario_B) 0
   \<and> shown (run browser [Toggle 2, Fire 1, Fire 0] scenario_B) 2
   \<and> dispatched (effects (run browser [Toggle 2, Fire 0, Fire 0] scenario_B))
        = [(BEFORE_COLLAPSE, 0), (BEFORE_EXPAND, 2), (COLLAPSE, 0), (EXPAND, 2)]
   \<and> togglePanel browser 0 scenario_B = scenario_B"
proof -
  have r: "reachable browser scenario_B"
    unfolding scenario_B_def new_accordion_def by (rule reachable.constructed)
  have h: "\<not> truthy (allowToggle (config scenario_B))" "active scenario_B = Some 0"
    "(0::int) \<le> 0" "0 < int (length (panels scenario_B))" "accepted 2 scenario_B"
    "effects scenario_B = []" "customEvent browser"
    by (simp_all add: scenario_B_eq accepted_def flaggedExpanded_def flaggedDisabled_def nth_js_def
          browser_def)
  from exclusive_swap[OF r h(1-5)] h(6,7) show ?thesis
    by simp
qed

section \<open>The code at the inputs where it departs from the specification\<close>

lemma scenario_A_eq:
  "scenario_A =
     \<lparr>config = \<lparr>allowToggle = JBool True, allowMultiple = JBool False\<rparr>,
      triggers = [\<lparr>ariaExpanded = Some ''true'', ariaDisabled = None\<rparr>,
                  \<lparr>ariaExpanded = Some ''false'', ariaDisabled = None\<rparr>,
                  \<lparr>ariaExpanded = Some ''false'', ariaDisabled = None\<rparr>],
      panels = [\<lparr>expandedClass = True, styleHeight = Cleared\<rparr>,
                \<lparr>expandedClass = False, styleHeight = Cleared\<rparr>,
                \<lparr>expandedClass = False, styleHeight = Cleared\<rparr>],
      active = Some 0, isTransitioning = Some False, timers = [], awaiting = None, effects = []\<rparr>"
  by (simp add: scenario_A_def new_accordion_def constructor_def markup_root_def markup_group_def
        visit_def Let_def opts_of_def getConfig_def js_or_def js_and_def not_not_def data_attr_def)

lemma after_other_eq:
  "after_other =
     \<lparr>config = \<lparr>allowToggle = JBool False, allowMultiple = JBool False\<rparr>,
      triggers = [\<lparr>ariaExpanded = Some ''true'', ariaDisabled = None\<rparr>],
      panels = [\<lparr>expandedClass = True, styleHeight = Cleared\<rparr>],
      active = Some 1, isTransitioning = Some False, timers = [], awaiting = None, effects = []\<rparr>"
  by (simp add: after_other_def new_accordion_def constructor_def markup_root_def markup_group_def
        markup_other_def visit_def Let_def opts_of_def getConfig_def js_or_def js_and_def not_not_def
        data_attr_def)

text \<open>
  Claim C1 says that with \<open>{allowToggle: true, allowMultiple: false}\<close> and panel \<open>j\<close> the only
  expanded panel, \<open>togglePanel(i)\<close> on a collapsed panel \<open>i\<close> first collapses \<open>j\<close> and then
  expands \<open>i\<close>. The toggle branch of the source only expands \<open>i\<close>: in scenario A of the
  specification, \<open>togglePanel(1)\<close> registers one timer, dispatches \<open>before-expand\<close> and \<open>expand\<close>
  for panel 1 and nothing for panel 0, and ends with panels 0 and 1 both expanded.
\<close>
theorem scenario_A_toggle_1:
  "\<not> truthy (allowMultiple (config scenario_A)) \<and> truthy (allowToggle (config scenario_A))
   \<and> flaggedExpanded scenario_A 0 \<and> \<not> flaggedExpanded scenario_A 1
   \<and> timers (run browser [Toggle 1] scenario_A) = [\<lparr>t_anim = Expanding, t_index = 1, t_delay = 300\<rparr>]
   \<and> dispatched (effects (run browser [Toggle 1, Fire 0] scenario_A)) = [(BEFORE_EXPAND, 1), (EXPAND, 1)]
   \<and> timers (run browser [Toggle 1, Fire 0] scenario_A) = []
   \<and> isTransitioning (run browser [Toggle 1, Fire 0] scenario_A) = Some False
   \<and> flaggedExpanded (run browser [Toggle 1, Fire 0] scenario_A) 0
   \<and> shown (run browser [Toggle 1, Fire 0] scenario_A) 0
   \<and> shown (run browser [Toggle 1, Fire 0] scenario_A) 1
   \<and> active (run browser [Toggle 1, Fire 0] scenario_A) = Some 1"
  by (simp add: scenario_A_eq togglePanel_def expandPanel_def expandTimeout_def nth_js_def Let_def
        await_def resolve_def dispatchEvent_def browser_def flaggedExpanded_def shown_def)

text \<open>
  Claim C2 says that with \<open>allowMultiple\<close> falsy at most one panel is expanded whenever no
  transition is under way, and that its index is the active index. After a completed
  \<open>togglePanel(1)\<close> on two panels of which the first is expanded, in toggle mode, both panels
  carry the expanded class and both triggers \<open>aria-expanded="true"\<close>, with no transition
  under way.
\<close>
theorem toggle_pair_two_expanded:
  "\<not> truthy (allowMultiple (config toggle_pair))
   \<and> isTransitioning (run browser [Toggle 1, Fire 0] toggle_pair) = Some False
   \<and> timers (run browser [Toggle 1, Fire 0] toggle_pair) = []
   \<and> awaiting (run browser [Toggle 1, Fire 0] toggle_pair) = None
   \<and> map expandedClass (panels (run browser [Toggle 1, Fire 0] toggle_pair)) = [True, True]
   \<and> map ariaExpanded (triggers (run browser [Toggle 1, Fire 0] toggle_pair)) = [Some ''true'', Some ''true'']
   \<and> active (run browser [Toggle 1, Fire 0] toggle_pair) = Some 1"
  by (simp add: toggle_pair_eq togglePanel_def expandPanel_def expandTimeout_def nth_js_def Let_def
        await_def resolve_def dispatchEvent_def browser_def)

text \<open>
  Claim C6 says that the first pair flagged expanded becomes the active index, as its index
  in the group. The constructor stores the index of the child among all children of the
  root: with a child that is not a group before the expanded pair, the group has one
  member (index 0) and the active index is 1. In this state \<open>togglePanel(0)\<close> is not
  rejected as the active panel; its collapse of index 1 throws, so the call never clears
  \<open>isTransitioning\<close>.
\<close>
theorem after_other_active_index:
  "\<not> truthy (allowMultiple (config after_other))
   \<and> length (triggers after_other) = 1 \<and> length (panels after_other) = 1
   \<and> flaggedExpanded after_other 0 \<and> shown after_other 0
   \<and> active after_other = Some 1
   \<and> togglePanel browser 0 after_other =
       after_other\<lparr>isTransitioning := Some True,
                   effects := [SetAriaExpanded 0 True, AddClass 0, Measure 0, SetHeight 0 Zero,
                               ForceReflow 0, ReadDuration 0, SetHeight 0 (Px 120),
                               Dispatch BEFORE_EXPAND 0, SetTimeout Expanding 0 300],
                   panels := [\<lparr>expandedClass = True, styleHeight = Px 120\<rparr>],
                   timers := [\<lparr>t_anim = Expanding, t_index = 0, t_delay = 300\<rparr>]\<rparr>
   \<and> isTransitioning (run browser [Toggle 0, Fire 0] after_other) = Some True
   \<and> timers (run browser [Toggle 0, Fire 0] after_other) = []"
  by (simp add: after_other_eq togglePanel_def collapsePanel_def expandPanel_def expandTimeout_def
        nth_js_def Let_def await_def resolve_def dispatchEvent_def browser_def flaggedExpanded_def
        shown_def)

text \<open>
  Claim C7 says that with \<open>allowToggle\<close> false and the active index \<open>j\<close>, an accepted
  \<open>togglePanel(i)\<close> for \<open>i \<noteq> j\<close> runs the collapse of \<open>j\<close> and the expansion of \<open>i\<close>, waits for
  both and then makes \<open>i\<close> the active index. The state the constructor builds from a
  non-group child followed by an expanded pair is reachable, has \<open>allowToggle\<close> false and
  the active index 1 with a single panel, and accepts \<open>togglePanel(0)\<close>: only the expansion
  starts, no collapse event is dispatched, and after the timer the active index is still
  1 and \<open>isTransitioning\<close> still true, with no timer left to change that.
\<close>

theorem after_other_swap_never_completes:
  "reachable browser after_other
   \<and> \<not> truthy (allowToggle (config after_other))
   \<and> active after_other = Some 1 \<and> length (panels after_other) = 1
   \<and> accepted 0 after_other
   \<and> map t_anim (timers (run browser [Toggle 0] after_other)) = [Expanding]
   \<and> awaiting (run browser [Toggle 0] after_other) = None
   \<and> dispatched (effects (run browser [Toggle 0] after_other)) = [(BEFORE_EXPAND, 0)]
   \<and> dispatched (effects (run browser [Toggle 0, Fire 0] after_other))
        = [(BEFORE_EXPAND, 0), (EXPAND, 0)]
   \<and> active (run browser [Toggle 0, Fire 0] after_other) = Some 1
   \<and> isTransitioning (run browser [Toggle 0, Fire 0] after_other) = Some True
   \<and> timers (run browser [Toggle 0, Fire 0] after_other) = []
   \<and> awaiting (run browser [Toggle 0, Fire 0] after_other) = None"
proof -
  have r: "reachable browser after_other"
    unfolding after_other_def new_accordion_def by (rule reachable.constructed)
  have e: "\<not> truthy (allowToggle (config after_other))
   \<and> active after_other = Some 1 \<and> length (panels after_other) = 1
   \<and> accepted 0 after_other
   \<and> map t_anim (timers (run browser [Toggle 0] after_other)) = [Expanding]
   \<and> awaiting (run browser [Toggle 0] after_other) = None
   \<and> dispatched (effects (run browser [Toggle 0] after_other)) = [(BEFORE_EXPAND, 0)]
   \<and> dispatched (effects (run browser [Toggle 0, Fire 0] after_other))
        = [(BEFORE_EXPAND, 0), (EXPAND, 0)]
   \<and> active (run browser [Toggle 0, Fire 0] after_other) = Some 1
   \<and> isTransitioning (run browser [Toggle 0, Fire 0] after_other) = Some True
   \<and> timers (run browser [Toggle 0, Fire 0] after_other) = []
   \<and> awaiting (run browser [Toggle 0, Fire 0] after_other) = None"
    by (simp add: after_other_eq togglePanel_def collapsePanel_def expandPanel_def expandTimeout_def
          nth_js_def Let_def await_def resolve_def dispatchEvent_def browser_def accepted_def
          flaggedExpanded_def flaggedDisabled_def)
  show ?thesis using r e by (rule conjI)
qed

section \<open>The order of the steps of a collapse and of an expansion\<close>

text \<open>
  Claim C4 puts the \<open>before-collapse\<close> notification before the write that starts the
  animation towards zero, and \<open>before-expand\<close> before the write of the target height. In
  the source the write comes first, in both operations.
\<close>
theorem collapse_before_event_counterexample:
  "\<not> precedes (Dispatch BEFORE_COLLAPSE 0) (SetHeight 0 Zero)
        (effects (snd (collapsePanel browser 0 toggle_pair)))
   \<and> precedes (SetHeight 0 Zero) (Dispatch BEFORE_COLLAPSE 0)
        (effects (snd (collapsePanel browser 0 toggle_pair)))
   \<and> \<not> precedes (Dispatch BEFORE_EXPAND 1) (SetHeight 1 (Px 120))
        (effects (snd (expandPanel browser 1 toggle_pair)))
   \<and> precedes (SetHeight 1 (Px 120)) (Dispatch BEFORE_EXPAND 1)
        (effects (snd (expandPanel browser 1 toggle_pair)))"
  by (simp add: toggle_pair_eq collapsePanel_def expandPanel_def nth_js_def Let_def
        dispatchEvent_def browser_def)

text \<open>
  Claim C4, amended. For a panel of the group, \<open>_collapsePanel(i)\<close> performs, in this order:
  set the trigger's \<open>aria-expanded\<close> to false; measure the height, pin it and force a
  reflow; read the transition duration; set the height to zero; dispatch
  \<open>before-collapse\<close> (where \<open>CustomEvent\<close> exists); register the timer with the duration read.
  The timer's callback clears the height, removes the expanded class, dispatches
  \<open>collapse\<close> and resolves. \<open>_expandPanel(i)\<close> sets \<open>aria-expanded\<close> to true, adds the class,
  measures the target height, pins the height to zero, forces a reflow, reads the
  duration, sets the height to the target, dispatches \<open>before-expand\<close> and registers the
  timer; its callback clears the height, dispatches \<open>expand\<close> and resolves. Neither promise
  is rejected.
\<close>

theorem collapse_expand_order:
  assumes "0 \<le> i" and "i < int (length (triggers this))" and "i < int (length (panels this))"
  shows "fst (collapsePanel e i this) = Pending
    \<and> effects (snd (collapsePanel e i this)) = effects this
        @ [SetAriaExpanded i False, Measure i,
           SetHeight i (Px (boundingHeight e i (panels this ! nat i))), ForceReflow i,
           ReadDuration i, SetHeight i Zero]
        @ (if customEvent e then [Dispatch BEFORE_COLLAPSE i] else [])
        @ [SetTimeout Collapsing i (getTransitionDuration e i
             ((panels this ! nat i)\<lparr>styleHeight := Px (boundingHeight e i (panels this ! nat i))\<rparr>))]
    \<and> timers (snd (collapsePanel e i this)) = timers this
        @ [\<lparr>t_anim = Collapsing, t_index = i, t_delay = getTransitionDuration e i
             ((panels this ! nat i)\<lparr>styleHeight := Px (boundingHeight e i (panels this ! nat i))\<rparr>)\<rparr>]
    \<and> \<not> flaggedExpanded (snd (collapsePanel e i this)) i
    \<and> shown (snd (collapsePanel e i this)) i = shown this i
    \<and> effects (collapseTimeout e i this) = effects this
        @ [SetHeight i Cleared, RemoveClass i]
        @ (if customEvent e then [Dispatch COLLAPSE i] else [])
        @ [Resolve Collapsing i]
    \<and> \<not> shown (collapseTimeout e i this) i
    \<and> fst (expandPanel e i this) = Pending
    \<and> effects (snd (expandPanel e i this)) = effects this
        @ [SetAriaExpanded i True, AddClass i, Measure i, SetHeight i Zero, ForceReflow i,
           ReadDuration i,
           SetHeight i (Px (boundingHeight e i ((panels this ! nat i)\<lparr>expandedClass := True\<rparr>)))]
        @ (if customEvent e then [Dispatch BEFORE_EXPAND i] else [])
        @ [SetTimeout Expanding i (getTransitionDuration e i
             ((panels this ! nat i)\<lparr>expandedClass := True, styleHeight := Zero\<rparr>))]
    \<and> timers (snd (expandPanel e i this)) = timers this
        @ [\<lparr>t_anim = Expanding, t_index = i, t_delay = getTransitionDuration e i
             ((panels this ! nat i)\<lparr>expandedClass := True, styleHeight := Zero\<rparr>)\<rparr>]
    \<and> flaggedExpanded (snd (expandPanel e i this)) i
    \<and> shown (snd (expandPanel e i this)) i
    \<and> effects (expandTimeout e i this) = effects this
        @ [SetHeight i Cleared]
        @ (if customEvent e then [Dispatch EXPAND i] else [])
        @ [Resolve Expanding i]
    \<and> shown (expandTimeout e i this) i = shown this i"
proof -
  have n: "nat i < length (triggers this)" "nat i < length (panels this)" using assms by auto
  have c: "fst (collapsePanel e i this) = Pending"
    "effects (snd (collapsePanel e i this)) = effects this
        @ [SetAriaExpanded i False, Measure i,
           SetHeight i (Px (boundingHeight e i (panels this ! nat i))), ForceReflow i,
           ReadDuration i, SetHeight i Zero]
        @ (if customEvent e then [Dispatch BEFORE_COLLAPSE i] else [])
        @ [SetTimeout Collapsing i (getTransitionDuration e i
             ((panels this ! nat i)\<lparr>styleHeight := Px (boundingHeight e i (panels this ! nat i))\<rparr>))]"
    "timers (snd (collapsePanel e i this)) = timers this
        @ [\<lparr>t_anim = Collapsing, t_index = i, t_delay = getTransitionDuration e i
             ((panels this ! nat i)\<lparr>styleHeight := Px (boundingHeight e i (panels this ! nat i))\<rparr>)\<rparr>]"
    "\<not> flaggedExpanded (snd (collapsePanel e i this)) i"
    "shown (snd (collapsePanel e i this)) i = shown this i"
    using assms n
    by (simp_all add: collapsePanel_def nth_js_def Let_def dispatchEvent_def flaggedExpanded_def shown_def)
  have ct: "effects (collapseTimeout e i this) = effects this
        @ [SetHeight i Cleared, RemoveClass i]
        @ (if customEvent e then [Dispatch COLLAPSE i] else [])
        @ [Resolve Collapsing i]"
    "\<not> shown (collapseTimeout e i this) i"
    using assms n
    by (simp_all add: collapseTimeout_def nth_js_def resolve_frame dispatchEvent_def shown_def)
  have x: "fst (expandPanel e i this) = Pending"
    "effects (snd (expandPanel e i this)) = effects this
        @ [SetAriaExpanded i True, AddClass i, Measure i, SetHeight i Zero, ForceReflow i,
           ReadDuration i,
           SetHeight i (Px (boundingHeight e i ((panels this ! nat i)\<lparr>expandedClass := True\<rparr>)))]
        @ (if customEvent e then [Dispatch BEFORE_EXPAND i] else [])
        @ [SetTimeout Expanding i (getTransitionDuration e i
             ((panels this ! nat i)\<lparr>expandedClass := True, styleHeight := Zero\<rparr>))]"
    "timers (snd (expandPanel e i this)) = timers this
        @ [\<lparr>t_anim = Expanding, t_index = i, t_delay = getTransitionDuration e i
             ((panels this ! nat i)\<lparr>expandedClass := True, styleHeight := Zero\<rparr>)\<rparr>]"
    "flaggedExpanded (snd (expandPanel e i this)) i"
    "shown (snd (expandPanel e i this)) i"
    using assms n
    by (simp_all add: expandPanel_def nth_js_def Let_def dispatchEvent_def flaggedExpanded_def shown_def)
  have xt: "effects (expandTimeout e i this) = effects this
        @ [SetHeight i Cleared]
        @ (if customEvent e then [Dispatch EXPAND i] else [])
        @ [Resolve Expanding i]"
    "shown (expandTimeout e i this) i = shown this i"
    using assms n
    by (simp_all add: expandTimeout_def nth_js_def resolve_frame dispatchEvent_def shown_def)
  show ?thesis
    using c ct x xt by (intro conjI)
qed

theorem collapse_expand_order_witness:
  "effects (snd (collapsePanel browser 0 toggle_pair)) =
     [SetAriaExpanded 0 False, Measure 0, SetHeight 0 (Px 120), ForceReflow 0, ReadDuration 0,
      SetHeight 0 Zero, Dispatch BEFORE_COLLAPSE 0, SetTimeout Collapsing 0 300]
   \<and> effects (collapseTimeout browser 0 toggle_pair) =
     [SetHeight 0 Cleared, RemoveClass 0, Dispatch COLLAPSE 0, Resolve Collapsing 0]
   \<and> effects (snd (expandPanel browser 1 toggle_pair)) =
     [SetAriaExpanded 1 True, AddClass 1, Measure 1, SetHeight 1 Zero, ForceReflow 1, ReadDuration 1,
      SetHeight 1 (Px 120), Dispatch BEFORE_EXPAND 1, SetTimeout Expanding 1 300]
   \<and> effects (expandTimeout browser 1 toggle_pair) =
     [SetHeight 1 Cleared, Dispatch EXPAND 1, Resolve Expanding 1]"
proof -
  have h: "length (triggers toggle_pair) = 2" "length (panels toggle_pair) = 2"
    "effects toggle_pair = []" "customEvent browser"
    "boundingHeight browser = (\<lambda>i p. 120)" "getTransitionDuration browser = (\<lambda>i p. 300)"
    by (simp_all add: toggle_pair_eq browser_def)
  show ?thesis
    using collapse_expand_order[of 0 toggle_pair browser] collapse_expand_order[of 1 toggle_pair browser]
    by (simp add: h)
qed

section \<open>Disabled triggers\<close>

lemma collapsePanel_other:
  assumes "collapsePanel e i this = (p, this')" and "k \<noteq> i"
  shows "nth_js (triggers this') k = nth_js (triggers this) k"
    "nth_js (panels this') k = nth_js (panels this) k"
    "collapsePending this' k = collapsePending this k"
  using assms
  by (auto simp: collapsePanel_def Let_def nth_js_def collapsePending_def split: option.splits if_splits)

lemma expandPanel_other:
  assumes "expandPanel e i this = (p, this')" and "k \<noteq> i"
  shows "nth_js (triggers this') k = nth_js (triggers this) k"
    "nth_js (panels this') k = nth_js (panels this) k"
    "collapsePending this' k = collapsePending this k"
  using assms
  by (auto simp: expandPanel_def Let_def nth_js_def collapsePending_def split: option.splits if_splits)

lemma locked_not_accepted: "locked this k \<Longrightarrow> \<not> accepted k this"
  by (simp add: locked_def accepted_def)

lemma locked_toggle:
  assumes t: "truthy (allowToggle (config this))" and l: "locked this k"
  shows "locked (togglePanel e i this) k \<and> shown (togglePanel e i this) k = shown this k"
proof (cases "accepted i this")
  case False
  then show ?thesis using l by (simp add: togglePanel_rejected)
next
  case True
  then have ki: "k \<noteq> i" using locked_not_accepted[OF l] by auto
  define this1 where "this1 = this\<lparr>isTransitioning := Some True\<rparr>"
  have l1: "locked this1 k" "shown this1 k = shown this k"
    using l by (simp_all add: this1_def locked_def flaggedExpanded_def flaggedDisabled_def
        collapsePending_def shown_def)
  have keep: "\<And>this2 c ps. nth_js (triggers this2) k = nth_js (triggers this1) k \<Longrightarrow>
      nth_js (panels this2) k = nth_js (panels this1) k \<Longrightarrow>
      collapsePending this2 k = collapsePending this1 k \<Longrightarrow>
      locked (await c ps this2) k \<and> shown (await c ps this2) k = shown this k"
    using l1 by (simp add: locked_def flaggedExpanded_def flaggedDisabled_def collapsePending_def
        shown_def await_def)
  show ?thesis
  proof (cases "flaggedExpanded this i")
    case True
    obtain p this2 where r: "collapsePanel e i this1 = (p, this2)" by (cases "collapsePanel e i this1")
    show ?thesis
      using keep[OF collapsePanel_other[OF r ki], of AfterCollapse "[p]"] t True r
      unfolding this1_def
      by (simp add: togglePanel_accepted[OF \<open>accepted i this\<close>])
  next
    case False
    obtain p this2 where r: "expandPanel e i this1 = (p, this2)" by (cases "expandPanel e i this1")
    show ?thesis
      using keep[OF expandPanel_other[OF r ki], of "AfterExpand i" "[p]"] t False r
      unfolding this1_def
      by (simp add: togglePanel_accepted[OF \<open>accepted i this\<close>])
  qed
qed

lemma resolve_keeps:
  "nth_js (triggers (resolve this)) k = nth_js (triggers this) k"
  "nth_js (panels (resolve this)) k = nth_js (panels this) k"
  "collapsePending (resolve this) k = collapsePending this k"
  by (simp_all add: resolve_frame collapsePending_def)

lemma locked_fire:
  assumes l: "locked this k"
  shows "locked (step e (Fire n) this) k \<and> shown (step e (Fire n) this) k = shown this k"
proof (cases "n < length (timers this)")
  case False
  then show ?thesis using l by simp
next
  case True
  define t where "t = timers this ! n"
  define this1 where "this1 = this\<lparr>timers := take n (timers this) @ drop (Suc n) (timers this)\<rparr>"
  have tin: "t \<in> set (timers this)" using True by (simp add: t_def)
  have np: "filter (\<lambda>t. t_anim t = Collapsing \<and> t_index t = k) (timers this) = []"
    using l by (simp add: locked_def collapsePending_def)
  then have nk: "\<not> (t_anim t = Collapsing \<and> t_index t = k)"
    using tin by (auto simp: filter_empty_conv)
  have "set (timers this1) \<subseteq> set (timers this)"
    by (auto simp: this1_def dest: in_set_takeD in_set_dropD)
  then have np1: "\<not> collapsePending this1 k"
    using np by (auto simp: collapsePending_def filter_empty_conv)
  have l1: "locked this1 k" "shown this1 k = shown this k"
    using l np1 by (simp_all add: locked_def this1_def flaggedExpanded_def flaggedDisabled_def shown_def)
  have c: "t_anim t = Collapsing \<Longrightarrow>
      locked (collapseTimeout e (t_index t) this1) k
      \<and> shown (collapseTimeout e (t_index t) this1) k = shown this k"
    using nk l1
    by (auto simp: collapseTimeout_def locked_def flaggedExpanded_def flaggedDisabled_def shown_def
          resolve_keeps resolve_frame collapsePending_def nth_js_def split: option.splits if_splits)
  have x: "t_anim t = Expanding \<Longrightarrow>
      locked (expandTimeout e (t_index t) this1) k
      \<and> shown (expandTimeout e (t_index t) this1) k = shown this k"
    using l1
    by (auto simp: expandTimeout_def locked_def flaggedExpanded_def flaggedDisabled_def shown_def
          resolve_keeps resolve_frame collapsePending_def nth_js_def nth_list_update
          split: option.splits if_splits)
  show ?thesis
    using True c x
    by (cases "t_anim t") (simp_all add: Let_def t_def[symmetric] this1_def[symmetric])
qed

lemma locked_step:
  "truthy (allowToggle (config this)) \<Longrightarrow> locked this k \<Longrightarrow>
   locked (step e a this) k \<and> shown (step e a this) k = shown this k"
  by (cases a) (simp_all add: locked_toggle locked_fire del: step.simps(2))

lemma locked_run:
  "truthy (allowToggle (config this)) \<Longrightarrow> locked this k \<Longrightarrow>
   locked (run e acts this) k \<and> shown (run e acts this) k = shown this k"
proof (induction acts arbitrary: this)
  case Nil
  then show ?case by simp
next
  case (Cons a acts)
  have "truthy (allowToggle (config (step e a this)))" using Cons.prems(1) by (simp add: config_step)
  moreover have "locked (step e a this) k" "shown (step e a this) k = shown this k"
    using locked_step[OF Cons.prems] by simp_all
  ultimately show ?case using Cons.IH[of "step e a this"] by simp
qed

lemma disabled_first_eq:
  "disabled_first t =
     \<lparr>config = \<lparr>allowToggle = JBool t, allowMultiple = JBool False\<rparr>,
      triggers = [\<lparr>ariaExpanded = Some ''true'', ariaDisabled = Some ''true''\<rparr>,
                  \<lparr>ariaExpanded = Some ''false'', ariaDisabled = None\<rparr>],
      panels = [\<lparr>expandedClass = True, styleHeight = Cleared\<rparr>,
                \<lparr>expandedClass = False, styleHeight = Cleared\<rparr>],
      active = Some 0, isTransitioning = Some False, timers = [], awaiting = None, effects = []\<rparr>"
  by (cases t)
     (simp_all add: disabled_first_def new_accordion_def constructor_def markup_root_def markup_group_def
        visit_def Let_def opts_of_def getConfig_def js_or_def js_and_def not_not_def data_attr_def)

text \<open>
  Claim C5 says that no toggle in any mode, the exclusive swap included, collapses a panel
  that is expanded and whose trigger is disabled. The swap collapses the active panel
  without reading its trigger's \<open>aria-disabled\<close>: with \<open>allowToggle\<close> false, panel 0 expanded
  and disabled, \<open>togglePanel(1)\<close> collapses panel 0.
\<close>
theorem disabled_active_collapsed_counterexample:
  "flaggedExpanded (disabled_first False) 0 \<and> flaggedDisabled (disabled_first False) 0
   \<and> shown (disabled_first False) 0
   \<and> \<not> flaggedExpanded (run browser [Toggle 1] (disabled_first False)) 0
   \<and> \<not> flaggedExpanded (run browser [Toggle 1, Fire 0, Fire 0] (disabled_first False)) 0
   \<and> \<not> shown (run browser [Toggle 1, Fire 0, Fire 0] (disabled_first False)) 0
   \<and> dispatched (effects (run browser [Toggle 1, Fire 0, Fire 0] (disabled_first False)))
        = [(BEFORE_COLLAPSE, 0), (BEFORE_EXPAND, 1), (COLLAPSE, 0), (EXPAND, 1)]"
  by (simp add: disabled_first_eq togglePanel_def collapsePanel_def expandPanel_def collapseTimeout_def
        expandTimeout_def nth_js_def Let_def await_def resolve_def dispatchEvent_def browser_def
        flaggedExpanded_def flaggedDisabled_def shown_def)

text \<open>
  Claim C5, amended. \<open>togglePanel(i)\<close> on an index whose trigger is flagged expanded and
  disabled returns the controller unchanged, in every state and mode. With \<open>allowToggle\<close>
  truthy, a trigger that is flagged expanded and disabled (and has no collapse of its
  panel under way) stays so through every sequence of toggle calls and timers, and its
  panel keeps its expanded class. In the exclusive swap (\<open>allowToggle\<close> falsy) the active
  panel is collapsed whatever its trigger's disabled flag.
\<close>

theorem disabled_trigger_lock:
  "(flaggedExpanded this i \<and> flaggedDisabled this i \<longrightarrow> togglePanel e i this = this)
   \<and> (truthy (allowToggle (config this)) \<and> locked this k
        \<longrightarrow> locked (run e acts this) k \<and> shown (run e acts this) k = shown this k)"
proof (intro conjI impI)
  assume "flaggedExpanded this i \<and> flaggedDisabled this i"
  then have "\<not> accepted i this" by (simp add: accepted_def)
  then show "togglePanel e i this = this" by (rule togglePanel_rejected)
next
  assume a: "truthy (allowToggle (config this)) \<and> locked this k"
  then show "locked (run e acts this) k" "shown (run e acts this) k = shown this k"
    using locked_run[of this k e acts] by simp_all
qed

theorem disabled_trigger_lock_witness:
  "togglePanel browser 0 (disabled_first False) = disabled_first False
   \<and> togglePanel browser 0 (disabled_first True) = disabled_first True
   \<and> locked (run browser [Toggle 1, Toggle 0, Fire 0, Toggle 0, Toggle 1, Fire 0] (disabled_first True)) 0
   \<and> shown (run browser [Toggle 1, Toggle 0, Fire 0, Toggle 0, Toggle 1, Fire 0] (disabled_first True)) 0"
proof -
  have h: "\<And>t. flaggedExpanded (disabled_first t) 0 \<and> flaggedDisabled (disabled_first t) 0"
    "truthy (allowToggle (config (disabled_first True))) \<and> locked (disabled_first True) 0"
    "shown (disabled_first True) 0"
    by (simp_all add: disabled_first_eq flaggedExpanded_def flaggedDisabled_def nth_js_def locked_def
          collapsePending_def shown_def)
  have 1: "togglePanel browser 0 (disabled_first False) = disabled_first False"
    by (rule disabled_trigger_lock[THEN conjunct1, THEN mp]) (rule h(1))
  have 2: "togglePanel browser 0 (disabled_first True) = disabled_first True"
    by (rule disabled_trigger_lock[THEN conjunct1, THEN mp]) (rule h(1))
  have 3: "locked (run browser [Toggle 1, Toggle 0, Fire 0, Toggle 0, Toggle 1, Fire 0] (disabled_first True)) 0
     \<and> shown (run browser [Toggle 1, Toggle 0, Fire 0, Toggle 0, Toggle 1, Fire 0] (disabled_first True)) 0
         = shown (disabled_first True) 0"
    by (rule disabled_trigger_lock[THEN conjunct2, THEN mp]) (rule h(2))
  show ?thesis
    using 1 2 3 h(3) by blast
qed

section \<open>A later pair flagged expanded\<close>

lemma forEach_children_append:
  "forEach_children i (xs @ ys) this = forEach_children (i + length xs) ys (forEach_children i xs this)"
  by (induction xs arbitrary: i this) simp_all

lemma visit_valid:
  assumes "valid_pair c"
  shows "visit i c this =
     this\<lparr>triggers := triggers this @ [the (queryTrigger c)],
          panels := panels this @ [(the (queryPanel c))
             \<lparr>expandedClass := (if \<not> truthy (allowMultiple (config this)) \<and> flagged c
                                     \<and> active this \<noteq> Some (- 1) then False else flagged c)\<rparr>],
          active := (if \<not> truthy (allowMultiple (config this)) \<and> flagged c \<and> active this = Some (- 1)
                     then Some (int i) else active this)\<rparr>"
  using assms by (auto simp: visit_def valid_pair_def flagged_def Let_def)

lemma visit_prefix:
  "length (triggers (visit i c this)) = length (triggers this) + (if valid_pair c then 1 else 0)"
  "length (panels (visit i c this)) = length (panels this) + (if valid_pair c then 1 else 0)"
  "n < length (triggers this) \<Longrightarrow> triggers (visit i c this) ! n = triggers this ! n"
  "n < length (panels this) \<Longrightarrow> panels (visit i c this) ! n = panels this ! n"
  by (cases "valid_pair c"; simp add: visit_valid visit_invalid nth_append)+

lemma forEach_children_prefix:
  "length (triggers (forEach_children i cs this)) = length (triggers this) + length (filter valid_pair cs)"
  "length (panels (forEach_children i cs this)) = length (panels this) + length (filter valid_pair cs)"
  "n < length (triggers this) \<Longrightarrow> triggers (forEach_children i cs this) ! n = triggers this ! n"
  "n < length (panels this) \<Longrightarrow> panels (forEach_children i cs this) ! n = panels this ! n"
  by (induction cs arbitrary: i this) (simp_all add: visit_prefix)

lemma visit_active_kept:
  "active this \<noteq> Some (- 1) \<Longrightarrow> active (visit i c this) = active this"
  by (cases "valid_pair c") (simp_all add: visit_valid visit_invalid)

lemma forEach_children_active_kept:
  "active this \<noteq> Some (- 1) \<Longrightarrow> active (forEach_children i cs this) = active this"
  by (induction cs arbitrary: i this) (simp_all add: visit_active_kept)

lemma visit_active_set:
  "valid_pair c \<Longrightarrow> flagged c \<Longrightarrow> \<not> truthy (allowMultiple (config this)) \<Longrightarrow>
   active (visit i c this) \<noteq> Some (- 1)"
  by (simp add: visit_valid)

lemma constructor_later_flagged:
  assumes ch: "children root = pre @ c1 # mid @ c2 # post"
    and v1: "valid_pair c1" "flagged c1" and v2: "valid_pair c2" "flagged c2"
    and single: "\<not> truthy (allowMultiple (getConfig (dataset root) opts))"
    and k: "k = length (filter valid_pair (pre @ c1 # mid))"
  shows "k < length (triggers (constructor root opts))"
    "k < length (panels (constructor root opts))"
    "triggers (constructor root opts) ! k = the (queryTrigger c2)"
    "panels (constructor root opts) ! k = (the (queryPanel c2))\<lparr>expandedClass := False\<rparr>"
    "isTransitioning (constructor root opts) = Some False"
proof -
  define cfg where "cfg = getConfig (dataset root) opts"
  define this0 where "this0 =
     \<lparr>config = cfg, triggers = [], panels = [],
      active = (if \<not> truthy (allowMultiple cfg) then Some (- 1) else None),
      isTransitioning = None, timers = [], awaiting = None, effects = []\<rparr>"
  define A where "A = forEach_children 0 pre this0"
  define B where "B = visit (length pre) c1 A"
  define C where "C = forEach_children (Suc (length pre)) mid B"
  define D where "D = visit (Suc (length pre) + length mid) c2 C"
  define this1 where "this1 = forEach_children (Suc (Suc (length pre) + length mid)) post D"
  have t1: "this1 = forEach_children 0 (children root) this0"
    by (simp add: ch forEach_children_append this1_def D_def C_def B_def A_def)
  have cfgC: "config A = cfg" "config C = cfg"
    by (simp_all add: A_def B_def C_def config_forEach_children config_visit this0_def)
  have actB: "active B \<noteq> Some (- 1)"
    unfolding B_def using v1 single cfgC(1) by (intro visit_active_set) (simp_all add: cfg_def)
  then have actC: "active C \<noteq> Some (- 1)"
    by (simp add: C_def forEach_children_active_kept)
  have lenC: "length (triggers C) = k" "length (panels C) = k"
    using v1 by (simp_all add: C_def B_def A_def forEach_children_prefix visit_prefix this0_def k)
  have D_eq: "D = C\<lparr>triggers := triggers C @ [the (queryTrigger c2)],
                    panels := panels C @ [(the (queryPanel c2))\<lparr>expandedClass := False\<rparr>],
                    active := active C\<rparr>"
    using actC single v2 cfgC(2) by (simp add: D_def visit_valid[OF v2(1)] cfg_def)
  have D1: "length (triggers D) = Suc k" "length (panels D) = Suc k"
    "triggers D ! k = the (queryTrigger c2)"
    "panels D ! k = (the (queryPanel c2))\<lparr>expandedClass := False\<rparr>"
    "active D \<noteq> Some (- 1)"
    using lenC actC by (simp_all add: D_eq nth_append)
  have T1: "k < length (triggers this1)" "k < length (panels this1)"
    "triggers this1 ! k = the (queryTrigger c2)"
    "panels this1 ! k = (the (queryPanel c2))\<lparr>expandedClass := False\<rparr>"
    "active this1 \<noteq> Some (- 1)"
    using D1 by (simp_all add: this1_def forEach_children_prefix forEach_children_active_kept)
  have c0: "constructor root opts =
     (if length (triggers this1) = 0 then this1
      else (if \<not> truthy (allowToggle cfg) \<and> active this1 = Some (- 1)
            then this1\<lparr>active := Some 0,
                       triggers := (triggers this1)[0 := (triggers this1 ! 0)\<lparr>ariaExpanded := Some ''true''\<rparr>],
                       panels := (panels this1)[0 := (panels this1 ! 0)\<lparr>expandedClass := True\<rparr>]\<rparr>
            else this1)\<lparr>isTransitioning := Some False\<rparr>)"
    by (simp add: constructor_def Let_def t1 this0_def cfg_def)
  have c: "constructor root opts = this1\<lparr>isTransitioning := Some False\<rparr>"
    unfolding c0 using T1(1,5) by auto
  show "k < length (triggers (constructor root opts))"
    "k < length (panels (constructor root opts))"
    "triggers (constructor root opts) ! k = the (queryTrigger c2)"
    "panels (constructor root opts) ! k = (the (queryPanel c2))\<lparr>expandedClass := False\<rparr>"
    "isTransitioning (constructor root opts) = Some False"
    using T1 by (simp_all add: c)
qed

lemma toggle_collapse_path:
  assumes t: "truthy (allowToggle (config this))" and acc: "accepted i this"
    and ex: "flaggedExpanded this i" and idle: "timers this = []"
  shows "dispatched (effects (run e [Toggle i, Fire 0] this)) = dispatched (effects this)
       @ (if customEvent e then [(BEFORE_COLLAPSE, i), (COLLAPSE, i)] else [])"
    "\<not> flaggedExpanded (run e [Toggle i, Fire 0] this) i"
    "\<not> shown (run e [Toggle i, Fire 0] this) i"
    "isTransitioning (run e [Toggle i, Fire 0] this) = Some False"
proof -
  have r: "0 \<le> i" "i < int (length (panels this))" "i < int (length (triggers this))"
    "nat i < length (panels this)" "nat i < length (triggers this)"
    using acc by (auto simp: accepted_def)
  show "dispatched (effects (run e [Toggle i, Fire 0] this)) = dispatched (effects this)
       @ (if customEvent e then [(BEFORE_COLLAPSE, i), (COLLAPSE, i)] else [])"
    "\<not> flaggedExpanded (run e [Toggle i, Fire 0] this) i"
    "\<not> shown (run e [Toggle i, Fire 0] this) i"
    "isTransitioning (run e [Toggle i, Fire 0] this) = Some False"
    using t ex r idle
    by (simp_all add: togglePanel_accepted[OF acc] collapsePanel_def collapseTimeout_def nth_js_def
          Let_def await_def resolve_def dispatched_append dispatched_dispatchEvent
          flaggedExpanded_def shown_def)
qed

lemma both_flagged_eq:
  "both_flagged t =
     \<lparr>config = \<lparr>allowToggle = JBool t, allowMultiple = JBool False\<rparr>,
      triggers = [\<lparr>ariaExpanded = Some ''true'', ariaDisabled = None\<rparr>,
                  \<lparr>ariaExpanded = Some ''true'', ariaDisabled = None\<rparr>],
      panels = [\<lparr>expandedClass = True, styleHeight = Cleared\<rparr>,
                \<lparr>expandedClass = False, styleHeight = Cleared\<rparr>],
      active = Some 0, isTransitioning = Some False, timers = [], awaiting = None, effects = []\<rparr>"
  by (cases t)
     (simp_all add: both_flagged_def new_accordion_def constructor_def markup_root_def markup_group_def
        visit_def Let_def opts_of_def getConfig_def js_or_def js_and_def not_not_def data_attr_def)

text \<open>
  Claim C9 says that after construction a toggle on a later pair that was flagged expanded
  follows the collapse path. For two pairs both flagged expanded and \<open>allowToggle\<close> false,
  \<open>togglePanel(1)\<close> takes the swap: it collapses the active panel 0 and expands panel 1; no
  collapse event carries index 1, and panel 1 ends expanded.
\<close>
theorem stale_flag_swap_counterexample:
  "\<not> truthy (allowMultiple (config (both_flagged False)))
   \<and> flaggedExpanded (both_flagged False) 1 \<and> \<not> shown (both_flagged False) 1
   \<and> dispatched (effects (run browser [Toggle 1] (both_flagged False)))
        = [(BEFORE_COLLAPSE, 0), (BEFORE_EXPAND, 1)]
   \<and> dispatched (effects (run browser [Toggle 1, Fire 0, Fire 0] (both_flagged False)))
        = [(BEFORE_COLLAPSE, 0), (BEFORE_EXPAND, 1), (COLLAPSE, 0), (EXPAND, 1)]
   \<and> shown (run browser [Toggle 1, Fire 0, Fire 0] (both_flagged False)) 1
   \<and> flaggedExpanded (run browser [Toggle 1, Fire 0, Fire 0] (both_flagged False)) 1"
  by (simp add: both_flagged_eq togglePanel_def collapsePanel_def expandPanel_def collapseTimeout_def
        expandTimeout_def nth_js_def Let_def await_def resolve_def dispatchEvent_def browser_def
        flaggedExpanded_def shown_def)

text \<open>
  Claim C9, amended. \<open>togglePanel\<close> reads the trigger's \<open>aria-expanded\<close>, not the panel's
  class. Under \<open>allowMultiple\<close> falsy the constructor leaves a valid pair that is flagged
  expanded after an earlier valid flagged pair with \<open>aria-expanded="true"\<close> on its trigger
  and without the expanded class on its panel; \<open>k\<close> is its index in the group. When
  moreover \<open>allowToggle\<close> is truthy and that trigger is not disabled, a toggle on \<open>k\<close> after
  construction follows the collapse path: it dispatches \<open>before-collapse\<close> and, when its
  timer runs, \<open>collapse\<close> for \<open>k\<close>, although the panel was already visually collapsed.
\<close>

theorem stale_flag_after_construction:
  assumes "children root = pre @ c1 # mid @ c2 # post"
    and "valid_pair c1" and "flagged c1" and "valid_pair c2" and "flagged c2"
    and "\<not> truthy (allowMultiple (getConfig (dataset root) opts))"
    and "k = int (length (filter valid_pair (pre @ c1 # mid)))"
  shows "flaggedExpanded (constructor root opts) k
    \<and> \<not> shown (constructor root opts) k
    \<and> (truthy (allowToggle (getConfig (dataset root) opts)) \<and> \<not> flaggedDisabled (constructor root opts) k
         \<longrightarrow> dispatched (effects (togglePanel e k (constructor root opts)))
               = (if customEvent e then [(BEFORE_COLLAPSE, k)] else [])
           \<and> dispatched (effects (run e [Toggle k, Fire 0] (constructor root opts)))
               = (if customEvent e then [(BEFORE_COLLAPSE, k), (COLLAPSE, k)] else [])
           \<and> \<not> flaggedExpanded (run e [Toggle k, Fire 0] (constructor root opts)) k
           \<and> \<not> shown (run e [Toggle k, Fire 0] (constructor root opts)) k)"
proof -
  define n where "n = length (filter valid_pair (pre @ c1 # mid))"
  define s where "s = constructor root opts"
  have kn: "k = int n" "nat k = n" using assms(7) by (simp_all add: n_def)
  note L = constructor_later_flagged[OF assms(1-6) n_def, folded s_def]
  have tr: "ariaExpanded (the (queryTrigger c2)) = Some ''true''"
    using assms(4,5) by (auto simp: valid_pair_def flagged_def)
  have fe: "flaggedExpanded s k"
    using L(1,3) tr by (simp add: flaggedExpanded_def nth_js_def kn)
  have ns: "\<not> shown s k"
    using L(2,4) by (simp add: shown_def nth_js_def kn)
  have later: "dispatched (effects (togglePanel e k s)) = (if customEvent e then [(BEFORE_COLLAPSE, k)] else [])
           \<and> dispatched (effects (run e [Toggle k, Fire 0] s))
               = (if customEvent e then [(BEFORE_COLLAPSE, k), (COLLAPSE, k)] else [])
           \<and> \<not> flaggedExpanded (run e [Toggle k, Fire 0] s) k
           \<and> \<not> shown (run e [Toggle k, Fire 0] s) k"
    if t: "truthy (allowToggle (getConfig (dataset root) opts))" and nd: "\<not> flaggedDisabled s k"
  proof -
    have cfg: "truthy (allowToggle (config s))" using t by (simp add: s_def config_constructor)
    have acc: "accepted k s"
      using L(1,2,5) cfg nd by (simp add: accepted_def kn)
    have idle: "timers s = []" "effects s = []" by (simp_all add: s_def constructor_shape)
    have b: "dispatched (effects (togglePanel e k s)) = (if customEvent e then [(BEFORE_COLLAPSE, k)] else [])"
    proof -
      have r: "0 \<le> k" "k < int (length (panels s))" "k < int (length (triggers s))"
        using acc by (auto simp: accepted_def)
      show ?thesis
        using cfg fe r idle
        by (simp add: togglePanel_accepted[OF acc] collapsePanel_def nth_js_def Let_def await_def
              dispatched_append dispatched_dispatchEvent)
    qed
    show ?thesis
      using toggle_collapse_path[OF cfg acc fe idle(1), of e] b idle(2) by simp
  qed
  show ?thesis
    unfolding s_def[symmetric] using fe ns later by blast
qed

theorem stale_flag_after_construction_witness:
  "flaggedExpanded (both_flagged True) 1 \<and> \<not> shown (both_flagged True) 1
   \<and> dispatched (effects (run browser [Toggle 1, Fire 0] (both_flagged True)))
       = [(BEFORE_COLLAPSE, 1), (COLLAPSE, 1)]
   \<and> \<not> flaggedExpanded (run browser [Toggle 1, Fire 0] (both_flagged True)) 1"
proof -
  let ?root = "markup_root [markup_group True False, markup_group True False]"
  have h: "children ?root = [] @ markup_group True False # [] @ markup_group True False # []"
    "valid_pair (markup_group True False)" "flagged (markup_group True False)"
    "\<not> truthy (allowMultiple (getConfig (dataset ?root) (opts_of True False)))"
    "(1::int) = int (length (filter valid_pair ([] @ markup_group True False # [])))"
    by (simp_all add: markup_root_def markup_group_def valid_pair_def flagged_def getConfig_def
          opts_of_def js_or_def js_and_def not_not_def data_attr_def Let_def)
  have g: "truthy (allowToggle (getConfig (dataset ?root) (opts_of True False)))"
    "\<not> flaggedDisabled (constructor ?root (opts_of True False)) 1" "customEvent browser"
    using both_flagged_eq[of True]
    by (simp_all add: markup_root_def getConfig_def opts_of_def js_or_def js_and_def not_not_def
          data_attr_def Let_def both_flagged_def new_accordion_def flaggedDisabled_def nth_js_def
          browser_def)
  from stale_flag_after_construction[OF h(1) h(2,3) h(2,3) h(4) h(5), of browser] g
  show ?thesis
    by (simp add: both_flagged_def new_accordion_def)
qed

end
